theory Spec2Isabelle
  imports Main
begin

section \<open>The environment of the script\<close>

text \<open>
  \<^verbatim>\<open>generate_favicons.py\<close> is one Python function that talks to three parts of its
  environment: the file system (\<^verbatim>\<open>os.path.exists\<close>, \<^verbatim>\<open>os.makedirs\<close>, \<^verbatim>\<open>os.remove\<close>),
  the console (\<^verbatim>\<open>print\<close>) and external programs (\<^verbatim>\<open>subprocess.run\<close> of \<^verbatim>\<open>sips\<close>
  and \<^verbatim>\<open>cp\<close>). The environment is an explicit state, the exceptions of Python are
  values, and the external programs are a parameter of the model: a function from the
  working directory, the argument vector and the file system to an exit status and a
  new file system. What the programs write to the console is left out, and \<^verbatim>\<open>print\<close>
  itself does not fail. The \<^verbatim>\<open>__main__\<close> block, which calls the function on two fixed
  paths, is left out as well.
\<close>

type_synonym path = string

text \<open>What the model knows of the content of a file: its encoding and its pixel size.\<close>

record image =
  img_format :: string
  img_width :: nat
  img_height :: nat

datatype node = File image | Dir

text \<open>
  A file or directory is identified by its location, the components of its absolute
  path from the root down. Several path strings name one location (\<^verbatim>\<open>out/x\<close>,
  \<^verbatim>\<open>./out/x\<close>, \<^verbatim>\<open>out//x\<close>, \<^verbatim>\<open>out/../out/x\<close>, the absolute path), so the file system is
  keyed by locations, and the library functions and the external programs resolve
  the path strings they are given before they touch it. There are no symbolic or hard
  links in the model, and names are case sensitive.
\<close>

type_synonym location = "string list"

type_synonym filesystem = "location \<rightharpoonup> node"

text \<open>
  \<open>cwd\<close> is the working directory of the process, which the script never changes,
  \<open>stdout\<close> holds the lines printed so far, \<open>calls\<close> the argument vectors handed to
  \<^verbatim>\<open>subprocess.run\<close> so far, both in order.
\<close>

record world =
  cwd :: location
  fs :: filesystem
  stdout :: "string list"
  calls :: "string list list"

datatype error =
    CalledProcessError int "string list"
  | FileNotFoundError
  | FileExistsError
  | NotADirectoryError
  | IsADirectoryError

text \<open>
  A statement runs in a world and either completes (\<open>Inr ()\<close>, Python's \<^verbatim>\<open>None\<close>) or
  raises (\<open>Inl e\<close>); in both cases the effects made so far stay in the world.
\<close>

type_synonym result = "(error + unit) \<times> world"
type_synonym stmt = "world \<Rightarrow> result"

text \<open>
  An external program: from the working directory it inherits, the argument vector and
  the file system to \<open>None\<close> when the executable cannot be started, or to the exit
  status and the file system it leaves.
\<close>

type_synonym tool = "location \<Rightarrow> string list \<Rightarrow> filesystem \<Rightarrow> (int \<times> filesystem) option"

definition is_file :: "filesystem \<Rightarrow> location \<Rightarrow> bool" where
  "is_file f p = (case f p of Some (File _) \<Rightarrow> True | _ \<Rightarrow> False)"

subsection \<open>Path strings and the locations they name\<close>

text \<open>The components of a path string, the empty ones included.\<close>

fun split_path :: "path \<Rightarrow> string list" where
  "split_path [] = [[]]"
| "split_path (c # cs) =
     (if c = CHR ''/'' then [] # split_path cs
      else case split_path cs of [] \<Rightarrow> [[c]] | x # xs \<Rightarrow> (c # x) # xs)"

text \<open>
  One step of path resolution: an empty component and \<^verbatim>\<open>.\<close> stay where they are,
  \<^verbatim>\<open>..\<close> goes up (the root is its own parent), a name goes down.
\<close>

definition walk :: "location \<Rightarrow> string \<Rightarrow> location" where
  "walk here name =
     (if name = [] \<or> name = ''.'' then here
      else if name = ''..'' then butlast here
      else here @ [name])"

text \<open>
  The location a path string names for a process whose working directory is \<open>d\<close>: an
  absolute path starts from the root, any other from \<open>d\<close>. The components are
  followed one by one, as \<^verbatim>\<open>os.path.abspath\<close> does.
\<close>

definition resolve :: "location \<Rightarrow> path \<Rightarrow> location" where
  "resolve d p =
     foldl walk (if p \<noteq> [] \<and> hd p = CHR ''/'' then [] else d) (split_path p)"

text \<open>
  A path string that ends in a separator, in \<^verbatim>\<open>.\<close> or in \<^verbatim>\<open>..\<close> can only name a
  directory, and the empty string names nothing.
\<close>

definition file_spelling :: "path \<Rightarrow> bool" where
  "file_spelling p \<longleftrightarrow>
     last (split_path p) \<noteq> [] \<and> last (split_path p) \<noteq> ''.'' \<and> last (split_path p) \<noteq> ''..''"

text \<open>What a path string names in a file system, if anything.\<close>

definition stat :: "location \<Rightarrow> filesystem \<Rightarrow> path \<Rightarrow> node option" where
  "stat d f p =
     (case f (resolve d p) of
        Some (File c) \<Rightarrow> if file_spelling p then Some (File c) else None
      | Some Dir \<Rightarrow> if p = [] then None else Some Dir
      | None \<Rightarrow> None)"

subsection \<open>Sequencing\<close>

text \<open>A block of statements runs them in order and stops at the first that raises.\<close>

fun block :: "stmt list \<Rightarrow> stmt" where
  "block [] w = (Inr (), w)"
| "block (s # ss) w =
     (case s w of
        (Inl e, w') \<Rightarrow> (Inl e, w')
      | (Inr _, w') \<Rightarrow> block ss w')"

text \<open>
  \<^verbatim>\<open>try: body except subprocess.CalledProcessError: handler\<close>. Any other exception of
  the body passes through, and so does whatever the handler raises.
\<close>

definition try_except_CalledProcessError :: "stmt \<Rightarrow> stmt \<Rightarrow> stmt" where
  "try_except_CalledProcessError body handler w =
     (case body w of
        (Inl (CalledProcessError rc cmd), w') \<Rightarrow> handler w'
      | (Inl e, w') \<Rightarrow> (Inl e, w')
      | (Inr u, w') \<Rightarrow> (Inr u, w'))"

subsection \<open>The Python library functions the script calls\<close>

definition print :: "string \<Rightarrow> stmt" where
  "print s w = (Inr (), w\<lparr>stdout := stdout w @ [s]\<rparr>)"

text \<open>\<^verbatim>\<open>str\<close> of an integer: its decimal digits, with a minus sign when negative.\<close>

definition digit_char :: "nat \<Rightarrow> char" where
  "digit_char d = char_of (48 + d)"

fun str_nat :: "nat \<Rightarrow> string" where
  "str_nat n = (if n < 10 then [digit_char n] else str_nat (n div 10) @ [digit_char (n mod 10)])"

declare str_nat.simps [simp del]

definition str :: "int \<Rightarrow> string" where
  "str i = (if i < 0 then CHR ''-'' # str_nat (nat (- i)) else str_nat (nat i))"

text \<open>\<^verbatim>\<open>os.path.join\<close> of two components (POSIX). It works on the strings alone.\<close>

definition os_path_join :: "path \<Rightarrow> path \<Rightarrow> path" where
  "os_path_join a b =
     (if b \<noteq> [] \<and> hd b = CHR ''/'' then b
      else if a = [] \<or> last a = CHR ''/'' then a @ b
      else a @ ''/'' @ b)"

text \<open>
  \<^verbatim>\<open>os.path.exists\<close>: whether the path names a file or a directory, under whatever
  spelling.
\<close>

definition os_path_exists :: "path \<Rightarrow> world \<Rightarrow> bool" where
  "os_path_exists p w = (stat (cwd w) (fs w) p \<noteq> None)"

text \<open>
  \<^verbatim>\<open>os.makedirs(name, exist_ok=True)\<close>. The ancestors of a location are its proper
  prefixes; the missing ones are created from the top, and a file in the way raises.
  An existing directory is left as it is.
\<close>

definition parent_dirs :: "location \<Rightarrow> location list" where
  "parent_dirs k = map (\<lambda>i. take i k) [1..<length k]"

fun mkdirs :: "location list \<Rightarrow> filesystem \<Rightarrow> (error + unit) \<times> filesystem" where
  "mkdirs [] f = (Inr (), f)"
| "mkdirs (d # ds) f =
     (case f d of
        None \<Rightarrow> mkdirs ds (f(d \<mapsto> Dir))
      | Some Dir \<Rightarrow> mkdirs ds f
      | Some (File _) \<Rightarrow> (Inl NotADirectoryError, f))"

definition os_makedirs :: "path \<Rightarrow> stmt" where
  "os_makedirs name w =
     (if name = [] then (Inl FileNotFoundError, w)
      else case fs w (resolve (cwd w) name) of
        Some Dir \<Rightarrow> (Inr (), w)
      | Some (File _) \<Rightarrow> (Inl FileExistsError, w)
      | None \<Rightarrow>
          (case mkdirs (parent_dirs (resolve (cwd w) name)) (fs w) of
             (Inl e, f) \<Rightarrow> (Inl e, w\<lparr>fs := f\<rparr>)
           | (Inr _, f) \<Rightarrow> (Inr (), w\<lparr>fs := f(resolve (cwd w) name \<mapsto> Dir)\<rparr>)))"

text \<open>
  \<^verbatim>\<open>os.remove\<close>: the file the path names is gone afterwards, under every spelling of
  its path.
\<close>

definition os_remove :: "path \<Rightarrow> stmt" where
  "os_remove p w =
     (case stat (cwd w) (fs w) p of
        Some (File _) \<Rightarrow> (Inr (), w\<lparr>fs := (fs w)(resolve (cwd w) p := None)\<rparr>)
      | Some Dir \<Rightarrow> (Inl IsADirectoryError, w)
      | None \<Rightarrow> (Inl FileNotFoundError, w))"

text \<open>
  \<^verbatim>\<open>subprocess.run(argv, check=True)\<close>: the call is recorded, the program runs in the
  working directory of the script to its end, and a non-zero exit status raises
  \<^verbatim>\<open>CalledProcessError\<close>. A program that cannot be started raises
  \<^verbatim>\<open>FileNotFoundError\<close>. Capturing the output of the program changes none of this.
\<close>

definition subprocess_run :: "tool \<Rightarrow> string list \<Rightarrow> stmt" where
  "subprocess_run run argv w =
     (case run (cwd w) argv (fs w) of
        None \<Rightarrow> (Inl FileNotFoundError, w\<lparr>calls := calls w @ [argv]\<rparr>)
      | Some (rc, f) \<Rightarrow>
          (if rc \<noteq> 0
           then (Inl (CalledProcessError rc argv), w\<lparr>fs := f, calls := calls w @ [argv]\<rparr>)
           else (Inr (), w\<lparr>fs := f, calls := calls w @ [argv]\<rparr>)))"

section \<open>The script\<close>

text \<open>The table \<^verbatim>\<open>targets\<close> (lines 13 to 44): file name, width, height.\<close>

definition targets :: "(string \<times> int \<times> int) list" where
  "targets =
    [(''android-chrome-144x144.png'', 144, 144),
     (''android-chrome-192x192.png'', 192, 192),
     (''android-chrome-256x256.png'', 256, 256),
     (''android-chrome-36x36.png'', 36, 36),
     (''android-chrome-384x384.png'', 384, 384),
     (''android-chrome-48x48.png'', 48, 48),
     (''android-chrome-512x512.png'', 512, 512),
     (''android-chrome-72x72.png'', 72, 72),
     (''android-chrome-96x96.png'', 96, 96),
     (''apple-touch-icon-1024x1024.png'', 1024, 1024),
     (''apple-touch-icon-114x114.png'', 114, 114),
     (''apple-touch-icon-120x120.png'', 120, 120),
     (''apple-touch-icon-144x144.png'', 144, 144),
     (''apple-touch-icon-152x152.png'', 152, 152),
     (''apple-touch-icon-167x167.png'', 167, 167),
     (''apple-touch-icon-180x180.png'', 180, 180),
     (''apple-touch-icon-57x57.png'', 57, 57),
     (''apple-touch-icon-60x60.png'', 60, 60),
     (''apple-touch-icon-72x72.png'', 72, 72),
     (''apple-touch-icon-76x76.png'', 76, 76),
     (''apple-touch-icon-precomposed.png'', 180, 180),
     (''apple-touch-icon.png'', 180, 180),
     (''favicon-16x16.png'', 16, 16),
     (''favicon-32x32.png'', 32, 32),
     (''favicon-48x48.png'', 48, 48),
     (''mstile-144x144.png'', 144, 144),
     (''mstile-150x150.png'', 150, 150),
     (''mstile-310x310.png'', 310, 310),
     (''mstile-70x70.png'', 70, 70),
     (''yandex-browser-50x50.png'', 50, 50)]"

text \<open>
  The body of the \<^verbatim>\<open>for\<close> loop (lines 47 to 52) for one entry: the progress line, then
  \<^verbatim>\<open>sips -z str(height) str(width) source_path --out target_path\<close>.
\<close>

definition resize_argv :: "path \<Rightarrow> path \<Rightarrow> string \<times> int \<times> int \<Rightarrow> string list" where
  "resize_argv source_path target_dir entry =
     (case entry of (filename, width, height) \<Rightarrow>
        [''sips'', ''-z'', str height, str width, source_path, ''--out'',
         os_path_join target_dir filename])"

definition progress_line :: "string \<times> int \<times> int \<Rightarrow> string" where
  "progress_line entry =
     (case entry of (filename, width, height) \<Rightarrow>
        ''Generating '' @ filename @ '' ('' @ str width @ ''x'' @ str height @ '')...'')"

fun for_targets :: "tool \<Rightarrow> path \<Rightarrow> path \<Rightarrow> (string \<times> int \<times> int) list \<Rightarrow> stmt" where
  "for_targets run source_path target_dir [] w = (Inr (), w)"
| "for_targets run source_path target_dir (entry # rest) w =
     (case block [print (progress_line entry),
                  subprocess_run run (resize_argv source_path target_dir entry)] w of
        (Inl e, w') \<Rightarrow> (Inl e, w')
      | (Inr _, w') \<Rightarrow> for_targets run source_path target_dir rest w')"

text \<open>
  The argument vectors of the four invocations after the loop, as lines 58 to 78 write
  them: the wide tile, the intermediate 32 by 32 image, the conversion to ICO and the
  fallback copy.
\<close>

definition tile_argv :: "path \<Rightarrow> path \<Rightarrow> string list" where
  "tile_argv source_path target_dir =
     [''sips'', ''-z'', ''150'', ''310'', source_path, ''--out'',
      os_path_join target_dir ''mstile-310x150.png'']"

definition temp_argv :: "path \<Rightarrow> path \<Rightarrow> string list" where
  "temp_argv source_path temp_ico_png =
     [''sips'', ''-z'', ''32'', ''32'', source_path, ''--out'', temp_ico_png]"

definition ico_argv :: "path \<Rightarrow> path \<Rightarrow> string list" where
  "ico_argv temp_ico_png target_dir =
     [''sips'', ''-s'', ''format'', ''ico'', temp_ico_png, ''--out'',
      os_path_join target_dir ''favicon.ico'']"

definition cp_argv :: "path \<Rightarrow> path \<Rightarrow> string list" where
  "cp_argv temp_ico_png target_dir =
     [''cp'', temp_ico_png, os_path_join target_dir ''favicon.ico'']"

text \<open>
  The statements of lines 10 to 80, which run once the source path is known to exist.
  The \<^verbatim>\<open>try\<close> is the seventh of them and \<^verbatim>\<open>os.remove\<close> the last, outside the
  \<^verbatim>\<open>try\<close>.
\<close>

definition statements :: "tool \<Rightarrow> path \<Rightarrow> path \<Rightarrow> stmt list" where
  "statements run source_path target_dir =
     (let temp_ico_png = os_path_join target_dir ''favicon_temp.png'' in
      [os_makedirs target_dir,
       for_targets run source_path target_dir targets,
       print ''Generating mstile-310x150.png...'',
       subprocess_run run (tile_argv source_path target_dir),
       print ''Generating favicon.ico...'',
       subprocess_run run (temp_argv source_path temp_ico_png),
       try_except_CalledProcessError
         (subprocess_run run (ico_argv temp_ico_png target_dir))
         (block [print ''sips ico export failed, falling back to PNG-as-ICO...'',
                 subprocess_run run (cp_argv temp_ico_png target_dir)]),
       os_remove temp_ico_png])"

text \<open>
  The function (lines 4 to 80). A missing source prints the error line and returns;
  the function has no \<^verbatim>\<open>return\<close> with a value, so every normal end yields \<^verbatim>\<open>None\<close>.
\<close>

definition generate_favicons :: "tool \<Rightarrow> path \<Rightarrow> path \<Rightarrow> stmt" where
  "generate_favicons run source_path target_dir w =
     (if \<not> os_path_exists source_path w
      then print (''Error: Source file '' @ source_path @ '' not found.'') w
      else block (statements run source_path target_dir) w)"

section \<open>The external tools\<close>

text \<open>
  \<^verbatim>\<open>sips\<close> and \<^verbatim>\<open>cp\<close> are not part of the repository. What the script relies on is
  their documented behaviour: a command takes a source file, writes its destination
  file and reports failure by a non-zero exit status. The statements below assume
  this of the tool parameter, one predicate per command. A program run in the
  directory \<open>d\<close> reads and writes the locations its path arguments name there.

  \<^verbatim>\<open>sips -z H W src --out dst\<close>: a run that exits 0 had a file as its source and
  changed the file system at \<open>dst\<close> only, to an image \<open>W\<close> wide and \<open>H\<close> high.
\<close>

definition sips_resizes :: "tool \<Rightarrow> bool" where
  "sips_resizes run \<longleftrightarrow>
     (\<forall>d h w src dst f f'.
        run d [''sips'', ''-z'', str h, str w, src, ''--out'', dst] f = Some (0, f') \<longrightarrow>
        is_file f (resolve d src) \<and>
        (\<exists>img. f' = f(resolve d dst \<mapsto> File img) \<and>
           int (img_width img) = w \<and> int (img_height img) = h))"

text \<open>
  \<^verbatim>\<open>sips -s format ico src --out dst\<close>: whatever the exit status, only \<open>dst\<close> is touched;
  after exit 0 it is a file.
\<close>

definition sips_converts :: "tool \<Rightarrow> bool" where
  "sips_converts run \<longleftrightarrow>
     (\<forall>d src dst f rc f'.
        run d [''sips'', ''-s'', ''format'', ''ico'', src, ''--out'', dst] f = Some (rc, f') \<longrightarrow>
        (\<forall>p. p \<noteq> resolve d dst \<longrightarrow> f' p = f p) \<and> (rc = 0 \<longrightarrow> is_file f' (resolve d dst)))"

text \<open>\<^verbatim>\<open>cp src dst\<close>: after exit 0, \<open>dst\<close> holds the content of the file \<open>src\<close>.\<close>

definition cp_copies :: "tool \<Rightarrow> bool" where
  "cp_copies run \<longleftrightarrow>
     (\<forall>d src dst f f'.
        run d [''cp'', src, dst] f = Some (0, f') \<longrightarrow>
        (\<exists>c. f (resolve d src) = Some (File c) \<and> f' = f(resolve d dst \<mapsto> File c)))"

definition tool_contract :: "tool \<Rightarrow> bool" where
  "tool_contract run \<longleftrightarrow> sips_resizes run \<and> sips_converts run \<and> cp_copies run"

text \<open>
  Whether a command succeeds is not for the script to decide. Where a statement is
  about a second run after a first one, it is about tools whose outcome can be
  repeated: a command line that could be started once can be started again, and one
  that has exited 0 once exits 0 again, in any file system where its source is a file
  and the directory of its destination exists. In particular a destination that is
  already there is overwritten, not refused. This is asked of the three command lines
  of the script.
\<close>

definition again :: "tool \<Rightarrow> location \<Rightarrow> string list \<Rightarrow> path \<Rightarrow> path \<Rightarrow> bool" where
  "again run d argv src dst \<longleftrightarrow>
     (\<forall>f rc f' g. run d argv f = Some (rc, f') \<longrightarrow>
        is_file g (resolve d src) \<longrightarrow> g (butlast (resolve d dst)) = Some Dir \<longrightarrow>
        (\<exists>rc' g'. run d argv g = Some (rc', g') \<and> (rc = 0 \<longrightarrow> rc' = 0)))"

definition repeatable :: "tool \<Rightarrow> bool" where
  "repeatable run \<longleftrightarrow>
     (\<forall>d a b src dst. again run d [''sips'', ''-z'', a, b, src, ''--out'', dst] src dst) \<and>
     (\<forall>d src dst.
        again run d [''sips'', ''-s'', ''format'', ''ico'', src, ''--out'', dst] src dst) \<and>
     (\<forall>d src dst. again run d [''cp'', src, dst] src dst)"

text \<open>
  The concrete runs below are made on tools that never fail without a reason:
  resizing a file to positive dimensions exits 0, the conversion can be started, and
  copying a file exits 0.
\<close>

definition resize_reliable :: "tool \<Rightarrow> bool" where
  "resize_reliable run \<longleftrightarrow>
     (\<forall>d h w src dst f c. 0 < h \<longrightarrow> 0 < w \<longrightarrow> stat d f src = Some (File c) \<longrightarrow>
        (\<exists>f'. run d [''sips'', ''-z'', str h, str w, src, ''--out'', dst] f = Some (0, f')))"

definition convert_starts :: "tool \<Rightarrow> bool" where
  "convert_starts run \<longleftrightarrow>
     (\<forall>d src dst f. \<exists>rc f'.
        run d [''sips'', ''-s'', ''format'', ''ico'', src, ''--out'', dst] f = Some (rc, f'))"

definition cp_reliable :: "tool \<Rightarrow> bool" where
  "cp_reliable run \<longleftrightarrow>
     (\<forall>d src dst f c. stat d f src = Some (File c) \<longrightarrow>
        (\<exists>f'. run d [''cp'', src, dst] f = Some (0, f')))"

subsection \<open>A reference host\<close>

text \<open>
  One concrete tool that honours the contract, to run the script on concrete worlds:
  \<^verbatim>\<open>sips\<close> resamples an image file to the height and width it reads from its
  arguments and keeps its encoding (the destination's suffix does not choose it),
  converts to ICO when \<open>ico_supported\<close> and exits 1 otherwise, and \<^verbatim>\<open>cp\<close> copies a
  file. Any other program is not installed.
\<close>

definition digit_val :: "char \<Rightarrow> nat option" where
  "digit_val c =
     (let k = (of_char c :: nat) in if 48 \<le> k \<and> k < 58 then Some (k - 48) else None)"

fun parse_digits :: "nat \<Rightarrow> string \<Rightarrow> nat option" where
  "parse_digits acc [] = Some acc"
| "parse_digits acc (c # cs) =
     (case digit_val c of None \<Rightarrow> None | Some d \<Rightarrow> parse_digits (acc * 10 + d) cs)"

definition parse_nat :: "string \<Rightarrow> nat option" where
  "parse_nat s = (if s = [] then None else parse_digits 0 s)"

definition host :: "bool \<Rightarrow> tool" where
  "host ico_supported d argv f =
     (case argv of
        [prog, opt, a, b, src, out, dst] \<Rightarrow>
          (if prog = ''sips'' \<and> opt = ''-z'' \<and> out = ''--out'' then
             (case (parse_nat a, parse_nat b, stat d f src) of
                (Some h, Some w, Some (File img)) \<Rightarrow>
                  (if 0 < h \<and> 0 < w
                   then Some (0, f(resolve d dst \<mapsto> File (img\<lparr>img_width := w, img_height := h\<rparr>)))
                   else Some (1, f))
              | _ \<Rightarrow> Some (1, f))
           else if prog = ''sips'' \<and> opt = ''-s'' \<and> a = ''format'' \<and> b = ''ico''
                   \<and> out = ''--out'' then
             (case stat d f src of
                Some (File img) \<Rightarrow>
                  (if ico_supported
                   then Some (0, f(resolve d dst \<mapsto> File (img\<lparr>img_format := ''ico''\<rparr>)))
                   else Some (1, f))
              | _ \<Rightarrow> Some (1, f))
           else None)
      | [prog, src, dst] \<Rightarrow>
          (if prog = ''cp'' then
             (case stat d f src of
                Some (File img) \<Rightarrow> Some (0, f(resolve d dst \<mapsto> File img))
              | _ \<Rightarrow> Some (1, f))
           else None)
      | _ \<Rightarrow> None)"

text \<open>
  Faulty hosts: one that refuses some invocations with exit status 1 and leaves the
  file system alone, one on which some invocations cannot be started at all.
\<close>

definition fail_when :: "(string list \<Rightarrow> bool) \<Rightarrow> tool \<Rightarrow> tool" where
  "fail_when refuse run d argv f = (if refuse argv then Some (1, f) else run d argv f)"


section \<open>Names and worlds of the statements\<close>

text \<open>
  A plain file name: not empty, without a separator, and neither \<^verbatim>\<open>.\<close> nor \<^verbatim>\<open>..\<close>.
  All the names the script joins to the target directory are of this kind.
\<close>

definition simple :: "string \<Rightarrow> bool" where
  "simple name \<longleftrightarrow> name \<noteq> [] \<and> CHR ''/'' \<notin> set name \<and> name \<noteq> ''.'' \<and> name \<noteq> ''..''"

text \<open>
  The location of \<^verbatim>\<open>os.path.join(target_dir, name)\<close> for a process in the directory
  \<open>d\<close>.
\<close>

abbreviation file_in :: "location \<Rightarrow> path \<Rightarrow> string \<Rightarrow> location" where
  "file_in d target_dir name \<equiv> resolve d (os_path_join target_dir name)"

text \<open>The names of the files a run leaves: the table's, the wide tile, the icon.\<close>

definition output_files :: "string list" where
  "output_files = map fst targets @ [''mstile-310x150.png'', ''favicon.ico'']"

text \<open>
  Four worlds, all with the working directory \<^verbatim>\<open>/work\<close>: one that holds a PNG source
  image, one that holds a JPEG source image, one that holds no file, and one where the
  source is the very file the script uses as its intermediate.
\<close>

definition example_world :: world where
  "example_world =
     \<lparr>cwd = [''work''],
      fs = [[''work''] \<mapsto> Dir,
            [''work'', ''logo.png''] \<mapsto>
              File \<lparr>img_format = ''png'', img_width = 1024, img_height = 1024\<rparr>],
      stdout = [], calls = []\<rparr>"


definition empty_world :: world where
  "empty_world = \<lparr>cwd = [''work''], fs = [[''work''] \<mapsto> Dir], stdout = [], calls = []\<rparr>"

definition aliased_world :: world where
  "aliased_world =
     \<lparr>cwd = [''work''],
      fs = [[''work''] \<mapsto> Dir,
            [''work'', ''out''] \<mapsto> Dir,
            [''work'', ''out'', ''favicon_temp.png''] \<mapsto>
              File \<lparr>img_format = ''png'', img_width = 1024, img_height = 1024\<rparr>],
      stdout = [], calls = []\<rparr>"

section \<open>Lemmas\<close>

subsection \<open>Decimal numerals\<close>

lemma digit_val_digit_char: "d < 10 \<Longrightarrow> digit_val (digit_char d) = Some d"
  by (simp add: digit_val_def digit_char_def)

lemma parse_digits_snoc:
  "parse_digits acc (cs @ [c]) =
     (case parse_digits acc cs of None \<Rightarrow> None
      | Some a \<Rightarrow> (case digit_val c of None \<Rightarrow> None | Some d \<Rightarrow> Some (a * 10 + d)))"
  by (induction cs arbitrary: acc) (auto split: option.splits)

lemma parse_digits_str_nat: "parse_digits 0 (str_nat n) = Some n"
proof (induction n rule: str_nat.induct)
  case (1 n)
  show ?case
  proof (cases "n < 10")
    case True
    then show ?thesis
      by (subst str_nat.simps) (simp add: digit_val_digit_char)
  next
    case False
    with 1 have "parse_digits 0 (str_nat (n div 10)) = Some (n div 10)" by simp
    with False show ?thesis
      by (subst str_nat.simps) (simp add: parse_digits_snoc digit_val_digit_char)
  qed
qed

lemma str_nat_not_Nil: "str_nat n \<noteq> []"
  by (subst str_nat.simps) simp

lemma parse_nat_str_nat: "parse_nat (str_nat n) = Some n"
  by (simp add: parse_nat_def str_nat_not_Nil parse_digits_str_nat)

lemma parse_nat_str: "parse_nat (str i) = (if i < 0 then None else Some (nat i))"
  by (simp add: str_def parse_nat_str_nat) (simp add: parse_nat_def digit_val_def)

lemma str_literals: "str 150 = ''150''" "str 310 = ''310''" "str 32 = ''32''"
  by code_simp+

subsection \<open>Resolving a joined path\<close>

lemma split_path_not_Nil: "split_path p \<noteq> []"
  by (induction p) (auto split: list.splits)

lemma split_path_append: "split_path (a @ CHR ''/'' # b) = split_path a @ split_path b"
  by (induction a) (auto simp: split_path_not_Nil split: list.splits)

lemma split_path_simple: "CHR ''/'' \<notin> set n \<Longrightarrow> split_path n = [n]"
  by (induction n) auto

lemma resolve_join_aux:
  assumes "simple n"
  shows "resolve d (os_path_join t n) = resolve d t @ [n] \<and>
         last (split_path (os_path_join t n)) = n"
proof -
  from assms have n: "n \<noteq> []" "CHR ''/'' \<notin> set n" "n \<noteq> ''.''" "n \<noteq> ''..''"
    by (simp_all add: simple_def)
  from n(1,2) have hd: "hd n \<noteq> CHR ''/''" by (cases n) auto
  from n have w: "walk h n = h @ [n]" for h by (simp add: walk_def)
  have e: "walk h [] = h" for h by (simp add: walk_def)
  note sp = split_path_simple[OF n(2)]
  consider (empty) "t = []" | (slash) t' where "t = t' @ [CHR ''/'']"
    | (plain) "t \<noteq> []" "last t \<noteq> CHR ''/''"
    by (cases t rule: rev_cases) auto
  then show ?thesis
  proof cases
    case empty
    with n(1) hd show ?thesis
      by (simp add: os_path_join_def resolve_def sp w e)
  next
    case slash
    from n(1) hd have j: "os_path_join (t' @ [CHR ''/'']) n = t' @ CHR ''/'' # n"
      by (simp add: os_path_join_def)
    have a: "hd (t' @ CHR ''/'' # n) = hd (t' @ [CHR ''/''])"
      by (cases t') simp_all
    have "split_path (t' @ CHR ''/'' # n) = split_path t' @ [n]"
      by (simp add: split_path_append sp)
    moreover have "split_path (t' @ [CHR ''/'']) = split_path t' @ [[]]"
      by (simp add: split_path_append)
    ultimately show ?thesis
      unfolding slash j resolve_def by (simp add: a w e)
  next
    case plain
    with n(1) hd have j: "os_path_join t n = t @ CHR ''/'' # n"
      by (simp add: os_path_join_def)
    have a: "(os_path_join t n \<noteq> [] \<and> hd (os_path_join t n) = CHR ''/'') =
             (t \<noteq> [] \<and> hd t = CHR ''/'')"
      unfolding j using plain(1) by (cases t) simp_all
    have "split_path (os_path_join t n) = split_path t @ [n]"
      unfolding j by (simp add: split_path_append sp)
    then show ?thesis
      unfolding resolve_def a by (simp add: w)
  qed
qed

lemma resolve_join: "simple n \<Longrightarrow> file_in d t n = resolve d t @ [n]"
  by (simp add: resolve_join_aux)

lemma join_file_spelling: "simple n \<Longrightarrow> file_spelling (os_path_join t n)"
  by (simp add: file_spelling_def resolve_join_aux simple_def)

lemma join_not_Nil: "simple n \<Longrightarrow> os_path_join t n \<noteq> []"
  by (auto simp: os_path_join_def simple_def)

lemma stat_spelled: "file_spelling p \<Longrightarrow> stat d f p = f (resolve d p)"
  by (auto simp: stat_def file_spelling_def split: option.splits node.splits)

lemma stat_file:
  "stat d f p = Some (File c) \<longleftrightarrow> file_spelling p \<and> f (resolve d p) = Some (File c)"
  by (auto simp: stat_def split: option.splits node.splits)

lemma stat_join: "simple n \<Longrightarrow> stat d f (os_path_join t n) = f (file_in d t n)"
  by (simp add: stat_spelled join_file_spelling)

lemma exists_file_spelling:
  "os_path_exists p w \<Longrightarrow> is_file (fs w) (resolve (cwd w) p) \<Longrightarrow> file_spelling p"
  by (auto simp: os_path_exists_def stat_def is_file_def split: option.splits node.splits if_splits)

lemma file_exists:
  "file_spelling p \<Longrightarrow> is_file (fs w) (resolve (cwd w) p) \<Longrightarrow> os_path_exists p w"
  by (auto simp: os_path_exists_def stat_spelled is_file_def split: option.splits node.splits)

subsection \<open>Statements\<close>

lemma block_Cons_Inr:
  "block (s # ss) w = (Inr u, w') \<longleftrightarrow> (\<exists>w1. s w = (Inr (), w1) \<and> block ss w1 = (Inr u, w'))"
  by (auto split: prod.splits sum.splits)

lemma block_Nil_Inr: "block [] w = (Inr u, w') \<longleftrightarrow> w' = w"
  by auto

lemma block_take_drop:
  "block (take n ss) w = (Inr (), w1) \<Longrightarrow> block ss w = block (drop n ss) w1"
proof (induction ss arbitrary: n w)
  case Nil
  then show ?case by simp
next
  case (Cons s ss)
  then show ?case
    by (cases n) (auto split: prod.splits sum.splits)
qed

lemma print_Inr: "print s w = (Inr u, w') \<longleftrightarrow> w' = w\<lparr>stdout := stdout w @ [s]\<rparr>"
  by (auto simp: print_def)

lemma subprocess_run_Inr:
  "subprocess_run run argv w = (Inr u, w') \<longleftrightarrow>
     (\<exists>f. run (cwd w) argv (fs w) = Some (0, f) \<and> w' = w\<lparr>fs := f, calls := calls w @ [argv]\<rparr>)"
  by (auto simp: subprocess_run_def split: option.splits)

lemma subprocess_run_Inl:
  "subprocess_run run argv w = (Inl e, w') \<longleftrightarrow>
     (run (cwd w) argv (fs w) = None \<and> e = FileNotFoundError \<and>
        w' = w\<lparr>calls := calls w @ [argv]\<rparr>) \<or>
     (\<exists>rc f. run (cwd w) argv (fs w) = Some (rc, f) \<and> rc \<noteq> 0 \<and> e = CalledProcessError rc argv \<and>
        w' = w\<lparr>fs := f, calls := calls w @ [argv]\<rparr>)"
  by (auto simp: subprocess_run_def split: option.splits)

lemma os_remove_Inr:
  "os_remove p w = (Inr u, w') \<longleftrightarrow>
     (\<exists>c. stat (cwd w) (fs w) p = Some (File c)) \<and>
     w' = w\<lparr>fs := (fs w)(resolve (cwd w) p := None)\<rparr>"
  by (auto simp: os_remove_def split: option.splits node.splits)

lemma os_remove_join:
  "simple n \<Longrightarrow>
   os_remove (os_path_join t n) w = (Inr u, w') \<longleftrightarrow>
     is_file (fs w) (file_in (cwd w) t n) \<and> w' = w\<lparr>fs := (fs w)(file_in (cwd w) t n := None)\<rparr>"
  by (auto simp: os_remove_Inr stat_join is_file_def split: option.splits node.splits)

lemma try_except_Inr:
  "try_except_CalledProcessError body handler w = (Inr u, w') \<longleftrightarrow>
     body w = (Inr u, w') \<or>
     (\<exists>rc cmd w1. body w = (Inl (CalledProcessError rc cmd), w1) \<and> handler w1 = (Inr u, w'))"
  by (auto simp: try_except_CalledProcessError_def split: prod.splits sum.splits error.splits)

subsection \<open>Creating directories\<close>

lemma mkdirs_files:
  "mkdirs ds f = (r, g) \<Longrightarrow> (g p = Some (File c)) = (f p = Some (File c))"
  by (induction ds arbitrary: f) (auto split: option.splits node.splits if_splits)

lemma mkdirs_grows: "mkdirs ds f = (r, g) \<Longrightarrow> f p = Some n \<Longrightarrow> g p = Some n"
proof (induction ds arbitrary: f)
  case Nil
  then show ?case by simp
next
  case (Cons d ds)
  show ?case
  proof (cases "f d")
    case None
    with Cons.prems have "p \<noteq> d" by auto
    with Cons.prems None have "mkdirs ds (f(d \<mapsto> Dir)) = (r, g)" "(f(d \<mapsto> Dir)) p = Some n"
      by simp_all
    then show ?thesis by (rule Cons.IH)
  next
    case (Some a)
    with Cons show ?thesis by (cases a) auto
  qed
qed

lemma os_makedirs_Inr:
  assumes "os_makedirs name w = (Inr u, w1)"
  shows "fs w1 (resolve (cwd w) name) = Some Dir" and "stdout w1 = stdout w"
    and "calls w1 = calls w"
    and "(fs w1 p = Some (File c)) = (fs w p = Some (File c))"
    and "fs w p = Some n \<Longrightarrow> fs w1 p = Some n"
    and "cwd w1 = cwd w" and "name \<noteq> []"
proof -
  show "fs w1 (resolve (cwd w) name) = Some Dir" "stdout w1 = stdout w" "calls w1 = calls w"
    "cwd w1 = cwd w" "name \<noteq> []"
    using assms
    by (auto simp: os_makedirs_def split: if_splits option.splits node.splits prod.splits sum.splits)
  show "(fs w1 p = Some (File c)) = (fs w p = Some (File c))"
    using assms
    by (auto simp: os_makedirs_def mkdirs_files
        split: if_splits option.splits node.splits prod.splits sum.splits)
  show "fs w1 p = Some n" if "fs w p = Some n"
    using assms that
    by (auto simp: os_makedirs_def mkdirs_grows
        split: if_splits option.splits node.splits prod.splits sum.splits)
qed

lemma os_makedirs_existing:
  "name \<noteq> [] \<Longrightarrow> fs w (resolve (cwd w) name) = Some Dir \<Longrightarrow> os_makedirs name w = (Inr (), w)"
  by (auto simp: os_makedirs_def)

subsection \<open>The names of the outputs\<close>

lemma file_in_inj: "simple a \<Longrightarrow> simple b \<Longrightarrow> file_in d t a = file_in d t b \<Longrightarrow> a = b"
  by (simp add: resolve_join)

lemma file_in_eq_iff: "simple a \<Longrightarrow> simple b \<Longrightarrow> (file_in d t a = file_in d t b) = (a = b)"
  by (simp add: resolve_join)

lemma file_in_neq_dir: "simple a \<Longrightarrow> file_in d t a \<noteq> resolve d t"
  by (simp add: resolve_join)

lemma names_distinct: "distinct (output_files @ [''favicon_temp.png''])"
  by (simp add: output_files_def targets_def)

lemma names_simple: "\<forall>n \<in> set (output_files @ [''favicon_temp.png'']). simple n"
  by (simp add: output_files_def targets_def simple_def)

lemma literal_names: "simple ''mstile-310x150.png''" "simple ''favicon.ico''"
  "simple ''favicon_temp.png''"
  by (simp_all add: simple_def)

lemma paths_distinct: "distinct (map (file_in d t) (output_files @ [''favicon_temp.png'']))"
proof -
  have "inj_on (file_in d t) (set (output_files @ [''favicon_temp.png'']))"
  proof (rule inj_onI)
    fix a b
    assume a: "a \<in> set (output_files @ [''favicon_temp.png''])"
      and b: "b \<in> set (output_files @ [''favicon_temp.png''])"
      and eq: "file_in d t a = file_in d t b"
    from names_simple a have "simple a" by (rule bspec)
    moreover from names_simple b have "simple b" by (rule bspec)
    ultimately show "a = b" using eq by (rule file_in_inj)
  qed
  with names_distinct show ?thesis by (simp add: distinct_map)
qed

lemma targets_positive: "\<forall>(n, wd, ht) \<in> set targets. 0 < wd \<and> 0 < ht"
  by (simp add: targets_def)

subsection \<open>The loop over the table\<close>

lemma for_targets_Cons_Inr:
  "for_targets run s t (e # es) w = (Inr u, w') \<longleftrightarrow>
     (\<exists>f. run (cwd w) (resize_argv s t e) (fs w) = Some (0, f) \<and>
        for_targets run s t es
          (w\<lparr>stdout := stdout w @ [progress_line e], fs := f,
             calls := calls w @ [resize_argv s t e]\<rparr>) = (Inr u, w'))"
  by (auto simp: print_def subprocess_run_def split: option.splits prod.splits sum.splits if_splits)

declare for_targets.simps(2) [simp del]

lemma for_targets_calls:
  "for_targets run s t es w = (Inr u, w') \<Longrightarrow> calls w' = calls w @ map (resize_argv s t) es"
  by (induction es arbitrary: w) (auto simp: for_targets_Cons_Inr)

lemma for_targets_stdout:
  "for_targets run s t es w = (Inr u, w') \<Longrightarrow> stdout w' = stdout w @ map progress_line es"
  by (induction es arbitrary: w) (auto simp: for_targets_Cons_Inr)

lemma for_targets_cwd:
  "for_targets run s t es w = (Inr u, w') \<Longrightarrow> cwd w' = cwd w"
  by (induction es arbitrary: w) (auto simp: for_targets_Cons_Inr)

lemma resize_effect:
  assumes "sips_resizes run" and "run d (resize_argv s t (n, wd, ht)) f = Some (0, f')"
  shows "is_file f (resolve d s)"
    and "\<exists>img. f' = f(file_in d t n \<mapsto> File img) \<and> int (img_width img) = wd \<and>
           int (img_height img) = ht"
  using assms unfolding sips_resizes_def resize_argv_def by auto

lemma for_targets_frame:
  assumes "sips_resizes run"
  shows "for_targets run s t es w = (Inr u, w') \<Longrightarrow>
         p \<notin> set (map (\<lambda>e. file_in (cwd w) t (fst e)) es) \<Longrightarrow> fs w' p = fs w p"
proof (induction es arbitrary: w)
  case Nil
  then show ?case by simp
next
  case (Cons e es)
  obtain n wd ht where e: "e = (n, wd, ht)" by (cases e)
  from Cons.prems(1) obtain f where
    f: "run (cwd w) (resize_argv s t e) (fs w) = Some (0, f)" and
    rest: "for_targets run s t es
          (w\<lparr>stdout := stdout w @ [progress_line e], fs := f,
             calls := calls w @ [resize_argv s t e]\<rparr>) = (Inr u, w')"
    by (auto simp: for_targets_Cons_Inr)
  from resize_effect(2)[OF assms f[unfolded e]] Cons.prems(2) e have "f p = fs w p" by auto
  moreover from Cons.IH[OF rest] Cons.prems(2) have "fs w' p = f p" by simp
  ultimately show ?case by simp
qed

lemma for_targets_written:
  assumes "sips_resizes run"
  shows "for_targets run s t es w = (Inr u, w') \<Longrightarrow>
         distinct (map (\<lambda>e. file_in (cwd w) t (fst e)) es) \<Longrightarrow> (n, wd, ht) \<in> set es \<Longrightarrow>
         \<exists>img. fs w' (file_in (cwd w) t n) = Some (File img) \<and> int (img_width img) = wd \<and>
           int (img_height img) = ht"
proof (induction es arbitrary: w)
  case Nil
  then show ?case by simp
next
  case (Cons e es)
  from Cons.prems(1) obtain f where
    f: "run (cwd w) (resize_argv s t e) (fs w) = Some (0, f)" and
    rest: "for_targets run s t es
          (w\<lparr>stdout := stdout w @ [progress_line e], fs := f,
             calls := calls w @ [resize_argv s t e]\<rparr>) = (Inr u, w')"
    by (auto simp: for_targets_Cons_Inr)
  show ?case
  proof (cases "(n, wd, ht) \<in> set es")
    case True
    with Cons.IH[OF rest] Cons.prems(2) show ?thesis by simp
  next
    case False
    with Cons.prems(3) have e: "e = (n, wd, ht)" by simp
    from Cons.prems(2) e have "file_in (cwd w) t n \<notin> set (map (\<lambda>e. file_in (cwd w) t (fst e)) es)"
      by simp
    with for_targets_frame[OF assms rest, of "file_in (cwd w) t n"]
    have "fs w' (file_in (cwd w) t n) = f (file_in (cwd w) t n)"
      by simp
    with resize_effect(2)[OF assms f[unfolded e]] show ?thesis by auto
  qed
qed

lemma for_targets_source:
  assumes "sips_resizes run"
  shows "for_targets run s t es w = (Inr u, w') \<Longrightarrow> es \<noteq> [] \<Longrightarrow>
         is_file (fs w) (resolve (cwd w) s) \<and> is_file (fs w') (resolve (cwd w) s)"
proof (induction es arbitrary: w)
  case Nil
  then show ?case by simp
next
  case (Cons e es)
  obtain n wd ht where e: "e = (n, wd, ht)" by (cases e)
  from Cons.prems(1) obtain f where
    f: "run (cwd w) (resize_argv s t e) (fs w) = Some (0, f)" and
    rest: "for_targets run s t es
          (w\<lparr>stdout := stdout w @ [progress_line e], fs := f,
             calls := calls w @ [resize_argv s t e]\<rparr>) = (Inr u, w')"
    by (auto simp: for_targets_Cons_Inr)
  from resize_effect[OF assms f[unfolded e]]
  have src: "is_file (fs w) (resolve (cwd w) s)" and f': "is_file f (resolve (cwd w) s)"
    by (auto simp: is_file_def)
  show ?case
  proof (cases es)
    case Nil
    with rest src f' show ?thesis by auto
  next
    case (Cons a list)
    with Cons.IH[OF rest] src show ?thesis by simp
  qed
qed

lemma for_targets_reliable:
  assumes "sips_resizes run" and "resize_reliable run" and "file_spelling s"
  shows "is_file (fs w) (resolve (cwd w) s) \<Longrightarrow> \<forall>(n, wd, ht) \<in> set es. 0 < wd \<and> 0 < ht \<Longrightarrow>
         \<exists>w'. for_targets run s t es w = (Inr (), w') \<and> is_file (fs w') (resolve (cwd w) s)"
proof (induction es arbitrary: w)
  case Nil
  then show ?case by simp
next
  case (Cons e es)
  obtain n wd ht where e: "e = (n, wd, ht)" by (cases e)
  with Cons.prems have pos: "0 < wd" "0 < ht" by auto
  from Cons.prems(1) assms(3) obtain c where "stat (cwd w) (fs w) s = Some (File c)"
    by (auto simp: stat_file is_file_def split: option.splits node.splits)
  with assms(2) pos obtain f where
    f: "run (cwd w) (resize_argv s t e) (fs w) = Some (0, f)"
    unfolding resize_reliable_def resize_argv_def e by fastforce
  from resize_effect(2)[OF assms(1) f[unfolded e]] Cons.prems(1)
  have "is_file f (resolve (cwd w) s)"
    by (auto simp: is_file_def)
  with Cons.IH[of "w\<lparr>stdout := stdout w @ [progress_line e], fs := f,
             calls := calls w @ [resize_argv s t e]\<rparr>"] Cons.prems(2) f
  show ?case by (auto simp: for_targets_Cons_Inr)
qed

subsection \<open>The run, statement by statement\<close>

declare block.simps(2) [simp del]

lemma prefix_anatomy:
  assumes "block (take 6 (statements run s t)) w = (Inr (), w4)"
  obtains w1 w2 f3 where
    "os_makedirs t w = (Inr (), w1)"
    "for_targets run s t targets w1 = (Inr (), w2)"
    "run (cwd w) (tile_argv s t) (fs w2) = Some (0, f3)"
    "run (cwd w) (temp_argv s (os_path_join t ''favicon_temp.png'')) f3 = Some (0, fs w4)"
    "cwd w4 = cwd w"
    "calls w4 = calls w2 @
       [tile_argv s t, temp_argv s (os_path_join t ''favicon_temp.png'')]"
proof -
  let ?temp = "os_path_join t ''favicon_temp.png''"
  from assms obtain w1 w2 w3 where
    s1: "os_makedirs t w = (Inr (), w1)" and
    s2: "for_targets run s t targets w1 = (Inr (), w2)" and
    s3: "subprocess_run run (tile_argv s t)
           (w2\<lparr>stdout := stdout w2 @ [''Generating mstile-310x150.png...'']\<rparr>) = (Inr (), w3)" and
    s4: "subprocess_run run (temp_argv s ?temp)
           (w3\<lparr>stdout := stdout w3 @ [''Generating favicon.ico...'']\<rparr>) = (Inr (), w4)"
    by (auto simp: statements_def Let_def block_Cons_Inr print_Inr)
  from os_makedirs_Inr(6)[OF s1] for_targets_cwd[OF s2] have d: "cwd w2 = cwd w" by simp
  from s3 d obtain f3 where
    f3: "run (cwd w) (tile_argv s t) (fs w2) = Some (0, f3)" and
    w3: "w3 = w2\<lparr>fs := f3, stdout := stdout w2 @ [''Generating mstile-310x150.png...''],
                 calls := calls w2 @ [tile_argv s t]\<rparr>"
    by (auto simp: subprocess_run_Inr)
  from s4 w3 d have
    f4: "run (cwd w) (temp_argv s ?temp) f3 = Some (0, fs w4)" and
    w4: "cwd w4 = cwd w" "calls w4 = calls w2 @ [tile_argv s t, temp_argv s ?temp]"
    by (auto simp: subprocess_run_Inr)
  from s1 s2 f3 f4 w4 show thesis by (rule that)
qed

lemma run_anatomy:
  assumes "os_path_exists s w" and "generate_favicons run s t w = (Inr (), w')"
  obtains w1 w2 f3 f4 f5 f6 rest where
    "os_makedirs t w = (Inr (), w1)"
    "for_targets run s t targets w1 = (Inr (), w2)"
    "run (cwd w) (tile_argv s t) (fs w2) = Some (0, f3)"
    "run (cwd w) (temp_argv s (os_path_join t ''favicon_temp.png'')) f3 = Some (0, f4)"
    "(rest = [] \<and> f5 = f4 \<and>
        run (cwd w) (ico_argv (os_path_join t ''favicon_temp.png'') t) f4 = Some (0, f6)) \<or>
     (\<exists>rc. rc \<noteq> 0 \<and>
        run (cwd w) (ico_argv (os_path_join t ''favicon_temp.png'') t) f4 = Some (rc, f5) \<and>
        run (cwd w) (cp_argv (os_path_join t ''favicon_temp.png'') t) f5 = Some (0, f6) \<and>
        rest = [cp_argv (os_path_join t ''favicon_temp.png'') t])"
    "is_file f6 (file_in (cwd w) t ''favicon_temp.png'')"
    "fs w' = f6(file_in (cwd w) t ''favicon_temp.png'' := None)"
    "calls w' = calls w2 @ [tile_argv s t, temp_argv s (os_path_join t ''favicon_temp.png''),
        ico_argv (os_path_join t ''favicon_temp.png'') t] @ rest"
    "cwd w' = cwd w"
proof -
  let ?temp = "os_path_join t ''favicon_temp.png''"
  let ?ss = "statements run s t"
  from assms have all: "block ?ss w = (Inr (), w')"
    by (simp add: generate_favicons_def)
  have "\<exists>w4. block (take 6 ?ss) w = (Inr (), w4)"
    using all by (auto simp: statements_def Let_def block_Cons_Inr print_Inr block_Nil_Inr)
  then obtain w4 where pre: "block (take 6 ?ss) w = (Inr (), w4)" by blast
  from pre obtain w1 w2 f3 where
    s1: "os_makedirs t w = (Inr (), w1)" and
    s2: "for_targets run s t targets w1 = (Inr (), w2)" and
    f3: "run (cwd w) (tile_argv s t) (fs w2) = Some (0, f3)" and
    f4: "run (cwd w) (temp_argv s ?temp) f3 = Some (0, fs w4)" and
    d4: "cwd w4 = cwd w" and
    c4: "calls w4 = calls w2 @ [tile_argv s t, temp_argv s ?temp]"
    by (rule prefix_anatomy)
  from block_take_drop[OF pre] all have "block (drop 6 ?ss) w4 = (Inr (), w')" by simp
  then obtain w5 where
    s5: "try_except_CalledProcessError
           (subprocess_run run (ico_argv ?temp t))
           (block [print ''sips ico export failed, falling back to PNG-as-ICO...'',
                   subprocess_run run (cp_argv ?temp t)]) w4 = (Inr (), w5)" and
    s6: "os_remove ?temp w5 = (Inr (), w')"
    by (auto simp: statements_def Let_def block_Cons_Inr block_Nil_Inr)
  from s5 d4 c4 obtain f5 f6 rest where
    alt: "(rest = [] \<and> f5 = fs w4 \<and> run (cwd w) (ico_argv ?temp t) (fs w4) = Some (0, f6)) \<or>
          (\<exists>rc. rc \<noteq> 0 \<and> run (cwd w) (ico_argv ?temp t) (fs w4) = Some (rc, f5) \<and>
             run (cwd w) (cp_argv ?temp t) f5 = Some (0, f6) \<and> rest = [cp_argv ?temp t])" and
    w5: "fs w5 = f6" "cwd w5 = cwd w"
      "calls w5 = calls w2 @ [tile_argv s t, temp_argv s ?temp, ico_argv ?temp t] @ rest"
    by (auto simp: try_except_Inr subprocess_run_Inr subprocess_run_Inl block_Cons_Inr print_Inr
        block_Nil_Inr)
  from s6 w5 have "is_file f6 (file_in (cwd w) t ''favicon_temp.png'')"
    "fs w' = f6(file_in (cwd w) t ''favicon_temp.png'' := None)"
    "calls w' = calls w2 @ [tile_argv s t, temp_argv s ?temp, ico_argv ?temp t] @ rest"
    "cwd w' = cwd w"
    by (auto simp: os_remove_join literal_names)
  with s1 s2 f3 f4 alt show thesis by (rule that)
qed

subsection \<open>The locations of the outputs\<close>

lemma special_paths:
  "file_in d t ''mstile-310x150.png'' \<noteq> file_in d t ''favicon.ico''"
  "file_in d t ''mstile-310x150.png'' \<noteq> file_in d t ''favicon_temp.png''"
  "file_in d t ''favicon.ico'' \<noteq> file_in d t ''favicon_temp.png''"
  by (simp_all add: resolve_join literal_names)

lemma target_names:
  assumes "e \<in> set targets"
  shows "simple (fst e)" and "fst e \<noteq> ''mstile-310x150.png''" and "fst e \<noteq> ''favicon.ico''"
    and "fst e \<noteq> ''favicon_temp.png''"
proof -
  from assms have m: "fst e \<in> fst ` set targets" by simp
  then have "fst e \<in> set (output_files @ [''favicon_temp.png''])"
    by (simp add: output_files_def)
  with names_simple show "simple (fst e)" by (rule bspec)
  from names_distinct have "''mstile-310x150.png'' \<notin> fst ` set targets"
    "''favicon.ico'' \<notin> fst ` set targets" "''favicon_temp.png'' \<notin> fst ` set targets"
    by (simp_all add: output_files_def)
  moreover from m have "\<And>y. y \<notin> fst ` set targets \<Longrightarrow> fst e \<noteq> y" by auto
  ultimately show "fst e \<noteq> ''mstile-310x150.png''" "fst e \<noteq> ''favicon.ico''"
    "fst e \<noteq> ''favicon_temp.png''"
    by iprover+
qed

lemma target_paths:
  assumes "e \<in> set targets"
  shows "file_in d t (fst e) \<noteq> file_in d t ''mstile-310x150.png''"
    and "file_in d t (fst e) \<noteq> file_in d t ''favicon.ico''"
    and "file_in d t (fst e) \<noteq> file_in d t ''favicon_temp.png''"
    and "file_in d t (fst e) \<noteq> resolve d t"
proof -
  note n = target_names[OF assms]
  from n show "file_in d t (fst e) \<noteq> file_in d t ''mstile-310x150.png''"
    "file_in d t (fst e) \<noteq> file_in d t ''favicon.ico''"
    "file_in d t (fst e) \<noteq> file_in d t ''favicon_temp.png''"
    by (simp_all add: resolve_join literal_names)
  from n(1) show "file_in d t (fst e) \<noteq> resolve d t" by (rule file_in_neq_dir)
qed

lemma target_paths_distinct: "distinct (map (\<lambda>e. file_in d t (fst e)) targets)"
proof -
  have "map (\<lambda>e. file_in d t (fst e)) targets = map (file_in d t) (map fst targets)"
    by simp
  with paths_distinct[of d t] show ?thesis by (simp add: output_files_def del: map_map)
qed

lemma output_paths:
  "set (map (file_in d t) output_files) =
     (\<lambda>e. file_in d t (fst e)) ` set targets \<union>
     {file_in d t ''mstile-310x150.png'', file_in d t ''favicon.ico''}"
  by (auto simp: output_files_def)

subsection \<open>The invocations written out in the script\<close>

lemma tile_argv_eq: "tile_argv s t = resize_argv s t (''mstile-310x150.png'', 310, 150)"
  by (simp add: tile_argv_def resize_argv_def str_literals)

lemma temp_argv_eq: "temp_argv s (os_path_join t n) = resize_argv s t (n, 32, 32)"
  by (simp add: temp_argv_def resize_argv_def str_literals)

lemma is_file_upd: "is_file f p \<Longrightarrow> is_file (f(d \<mapsto> File i)) p"
  by (simp add: is_file_def)

lemma convert_effect:
  assumes "sips_converts run"
    and "run d (ico_argv (os_path_join t ''favicon_temp.png'') t) f = Some (rc, f')"
  shows "p \<noteq> file_in d t ''favicon.ico'' \<Longrightarrow> f' p = f p"
    and "rc = 0 \<Longrightarrow> is_file f' (file_in d t ''favicon.ico'')"
    and "f' (file_in d t ''favicon_temp.png'') = f (file_in d t ''favicon_temp.png'')"
proof -
  from assms have a: "(\<forall>p. p \<noteq> file_in d t ''favicon.ico'' \<longrightarrow> f' p = f p) \<and>
      (rc = 0 \<longrightarrow> is_file f' (file_in d t ''favicon.ico''))"
    unfolding sips_converts_def ico_argv_def by simp
  from a show "p \<noteq> file_in d t ''favicon.ico'' \<Longrightarrow> f' p = f p" by simp
  from a show "rc = 0 \<Longrightarrow> is_file f' (file_in d t ''favicon.ico'')" by simp
  from a special_paths(3)[of d t]
  show "f' (file_in d t ''favicon_temp.png'') = f (file_in d t ''favicon_temp.png'')"
    by simp
qed

lemma copy_effect:
  assumes "cp_copies run"
    and "run d (cp_argv (os_path_join t ''favicon_temp.png'') t) f = Some (0, f')"
  shows "\<exists>c. f (file_in d t ''favicon_temp.png'') = Some (File c) \<and>
           f' = f(file_in d t ''favicon.ico'' \<mapsto> File c)"
  using assms unfolding cp_copies_def cp_argv_def by simp

subsection \<open>What a run that returns leaves behind\<close>

lemma run_effect:
  assumes c: "tool_contract run" and ex: "os_path_exists s w"
    and r: "generate_favicons run s t w = (Inr (), w')"
  obtains w1 w2 where
    "os_makedirs t w = (Inr (), w1)"
    "for_targets run s t targets w1 = (Inr (), w2)"
    "\<And>p. p \<noteq> file_in (cwd w) t ''mstile-310x150.png'' \<Longrightarrow> p \<noteq> file_in (cwd w) t ''favicon.ico'' \<Longrightarrow>
        p \<noteq> file_in (cwd w) t ''favicon_temp.png'' \<Longrightarrow> fs w' p = fs w2 p"
    "\<exists>img. fs w' (file_in (cwd w) t ''mstile-310x150.png'') = Some (File img) \<and>
        img_width img = 310 \<and> img_height img = 150"
    "is_file (fs w') (file_in (cwd w) t ''favicon.ico'')"
    "fs w' (file_in (cwd w) t ''favicon_temp.png'') = None"
    "is_file (fs w') (resolve (cwd w) s) \<or> resolve (cwd w) s = file_in (cwd w) t ''favicon_temp.png''"
    "cwd w1 = cwd w" "cwd w2 = cwd w" "cwd w' = cwd w"
proof -
  let ?d = "cwd w"
  let ?tile = "file_in ?d t ''mstile-310x150.png''"
  let ?ico = "file_in ?d t ''favicon.ico''"
  let ?temp = "file_in ?d t ''favicon_temp.png''"
  let ?tmp = "os_path_join t ''favicon_temp.png''"
  from c have rs: "sips_resizes run" and cv: "sips_converts run" and cp: "cp_copies run"
    by (simp_all add: tool_contract_def)
  from ex r obtain w1 w2 f3 f4 f5 f6 rest where
    s1: "os_makedirs t w = (Inr (), w1)" and
    s2: "for_targets run s t targets w1 = (Inr (), w2)" and
    f3: "run ?d (tile_argv s t) (fs w2) = Some (0, f3)" and
    f4: "run ?d (temp_argv s ?tmp) f3 = Some (0, f4)" and
    alt: "(rest = [] \<and> f5 = f4 \<and> run ?d (ico_argv ?tmp t) f4 = Some (0, f6)) \<or>
          (\<exists>rc. rc \<noteq> 0 \<and> run ?d (ico_argv ?tmp t) f4 = Some (rc, f5) \<and>
             run ?d (cp_argv ?tmp t) f5 = Some (0, f6) \<and> rest = [cp_argv ?tmp t])" and
    f6: "is_file f6 ?temp" and w': "fs w' = f6(?temp := None)" and
    cs: "calls w' = calls w2 @ [tile_argv s t, temp_argv s ?tmp, ico_argv ?tmp t] @ rest" and
    d': "cwd w' = cwd w"
    by (rule run_anatomy)
  note d1 = os_makedirs_Inr(6)[OF s1]
  from for_targets_cwd[OF s2] d1 have d2: "cwd w2 = cwd w" by simp
  from resize_effect[OF rs f3[unfolded tile_argv_eq]] obtain i3 where
    src2: "is_file (fs w2) (resolve ?d s)" and
    e3: "f3 = (fs w2)(?tile \<mapsto> File i3)" "img_width i3 = 310" "img_height i3 = 150"
    by auto
  from resize_effect[OF rs f4[unfolded temp_argv_eq]] obtain i4 where
    e4: "f4 = f3(?temp \<mapsto> File i4)" by auto
  have e6: "(\<forall>p. p \<noteq> ?ico \<longrightarrow> f6 p = f4 p) \<and> is_file f6 ?ico"
  proof -
    from alt consider
      (native) "run ?d (ico_argv ?tmp t) f4 = Some (0, f6)"
    | (fallback) rc where "run ?d (ico_argv ?tmp t) f4 = Some (rc, f5)"
        "run ?d (cp_argv ?tmp t) f5 = Some (0, f6)"
      by auto
    then show ?thesis
    proof cases
      case native
      from convert_effect(1,2)[OF cv native] show ?thesis by simp
    next
      case fallback
      from convert_effect(1)[OF cv fallback(1)] have "\<forall>p. p \<noteq> ?ico \<longrightarrow> f5 p = f4 p"
        by simp
      moreover from copy_effect[OF cp fallback(2)] obtain c where "f6 = f5(?ico \<mapsto> File c)"
        by auto
      ultimately show ?thesis by (simp add: is_file_def)
    qed
  qed
  have a: "fs w' p = fs w2 p" if "p \<noteq> ?tile" "p \<noteq> ?ico" "p \<noteq> ?temp" for p
    using that w' e6 e4 e3 by simp
  have b: "\<exists>img. fs w' ?tile = Some (File img) \<and> img_width img = 310 \<and> img_height img = 150"
    using w' e6 e4 e3 special_paths[of ?d t] by simp
  have d: "is_file (fs w') ?ico"
    using w' e6 special_paths[of ?d t] by (simp add: is_file_def)
  have e: "fs w' ?temp = None" using w' by simp
  have g: "is_file (fs w') (resolve ?d s) \<or> resolve ?d s = ?temp"
  proof (cases "resolve ?d s = ?temp")
    case True
    then show ?thesis by simp
  next
    case False
    from src2 e3 e4 have "is_file f4 (resolve ?d s)" by (simp add: is_file_def)
    with e6 have "is_file f6 (resolve ?d s)"
      by (cases "resolve ?d s = ?ico") (simp_all add: is_file_def)
    with False w' show ?thesis by (simp add: is_file_def)
  qed
  from s1 s2 a b d e g d1 d2 d' show thesis by (rule that)
qed

lemma run_calls:
  assumes ex: "os_path_exists s w" and r: "generate_favicons run s t w = (Inr (), w')"
  shows "\<exists>rest. calls w' = calls w @ map (resize_argv s t) targets @
           [tile_argv s t, temp_argv s (os_path_join t ''favicon_temp.png''),
            ico_argv (os_path_join t ''favicon_temp.png'') t] @ rest \<and>
           (rest = [] \<or> rest = [cp_argv (os_path_join t ''favicon_temp.png'') t])"
proof -
  let ?temp = "os_path_join t ''favicon_temp.png''"
  from ex r obtain w1 w2 f3 f4 f5 f6 rest where
    s1: "os_makedirs t w = (Inr (), w1)" and
    s2: "for_targets run s t targets w1 = (Inr (), w2)" and
    "run (cwd w) (tile_argv s t) (fs w2) = Some (0, f3)" and
    "run (cwd w) (temp_argv s ?temp) f3 = Some (0, f4)" and
    alt: "(rest = [] \<and> f5 = f4 \<and> run (cwd w) (ico_argv ?temp t) f4 = Some (0, f6)) \<or>
          (\<exists>rc. rc \<noteq> 0 \<and> run (cwd w) (ico_argv ?temp t) f4 = Some (rc, f5) \<and>
             run (cwd w) (cp_argv ?temp t) f5 = Some (0, f6) \<and> rest = [cp_argv ?temp t])" and
    "is_file f6 (file_in (cwd w) t ''favicon_temp.png'')" and
    "fs w' = f6(file_in (cwd w) t ''favicon_temp.png'' := None)" and
    cs: "calls w' = calls w2 @ [tile_argv s t, temp_argv s ?temp, ico_argv ?temp t] @ rest" and
    "cwd w' = cwd w"
    by (rule run_anatomy)
  from alt have "rest = [] \<or> rest = [cp_argv ?temp t]" by auto
  with cs for_targets_calls[OF s2] os_makedirs_Inr(3)[OF s1] show ?thesis by auto
qed

lemma outputs_are_files:
  assumes c: "tool_contract run" and ex: "os_path_exists s w"
    and r: "generate_favicons run s t w = (Inr (), w')"
    and p: "p \<in> set (map (file_in (cwd w) t) output_files)"
  shows "is_file (fs w') p"
proof -
  let ?d = "cwd w"
  from c have rs: "sips_resizes run" by (simp add: tool_contract_def)
  from c ex r obtain w1 w2 where
    s2: "for_targets run s t targets w1 = (Inr (), w2)" and
    frame: "\<And>p. p \<noteq> file_in ?d t ''mstile-310x150.png'' \<Longrightarrow> p \<noteq> file_in ?d t ''favicon.ico'' \<Longrightarrow>
        p \<noteq> file_in ?d t ''favicon_temp.png'' \<Longrightarrow> fs w' p = fs w2 p" and
    tile: "\<exists>img. fs w' (file_in ?d t ''mstile-310x150.png'') = Some (File img) \<and>
        img_width img = 310 \<and> img_height img = 150" and
    ico: "is_file (fs w') (file_in ?d t ''favicon.ico'')" and
    d1: "cwd w1 = cwd w"
    by (rule run_effect) blast
  from p consider e where "e \<in> set targets" "p = file_in ?d t (fst e)"
    | "p = file_in ?d t ''mstile-310x150.png''" | "p = file_in ?d t ''favicon.ico''"
    unfolding output_paths by auto
  then show ?thesis
  proof cases
    case 1
    obtain n wd ht where e: "e = (n, wd, ht)" by (cases e)
    from for_targets_written[OF rs s2 target_paths_distinct, of n wd ht] 1(1) e d1
    have "is_file (fs w2) (file_in ?d t n)" by (auto simp: is_file_def)
    with frame[of p] target_paths[OF 1(1), of ?d t] 1(2) e show ?thesis
      by (simp add: is_file_def)
  next
    case 2
    with tile show ?thesis by (auto simp: is_file_def)
  next
    case 3
    with ico show ?thesis by simp
  qed
qed

lemma target_dir_kept:
  assumes c: "tool_contract run" and ex: "os_path_exists s w"
    and r: "generate_favicons run s t w = (Inr (), w')"
  shows "fs w' (resolve (cwd w) t) = Some Dir" and "t \<noteq> []"
proof -
  let ?d = "cwd w"
  from c have rs: "sips_resizes run" by (simp add: tool_contract_def)
  from c ex r obtain w1 w2 where
    s1: "os_makedirs t w = (Inr (), w1)" and
    s2: "for_targets run s t targets w1 = (Inr (), w2)" and
    frame: "\<And>p. p \<noteq> file_in ?d t ''mstile-310x150.png'' \<Longrightarrow> p \<noteq> file_in ?d t ''favicon.ico'' \<Longrightarrow>
        p \<noteq> file_in ?d t ''favicon_temp.png'' \<Longrightarrow> fs w' p = fs w2 p" and
    d1: "cwd w1 = cwd w"
    by (rule run_effect) blast
  from s1 show "t \<noteq> []" by (rule os_makedirs_Inr(7))
  have "resolve ?d t \<noteq> file_in ?d t ''mstile-310x150.png''"
    "resolve ?d t \<noteq> file_in ?d t ''favicon.ico''"
    "resolve ?d t \<noteq> file_in ?d t ''favicon_temp.png''"
    by (simp_all add: resolve_join literal_names)
  then have "fs w' (resolve ?d t) = fs w2 (resolve ?d t)" by (rule frame)
  also have "fs w2 (resolve ?d t) = fs w1 (resolve ?d t)"
  proof (rule for_targets_frame[OF rs s2])
    show "resolve ?d t \<notin> set (map (\<lambda>e. file_in (cwd w1) t (fst e)) targets)"
    proof
      assume "resolve ?d t \<in> set (map (\<lambda>e. file_in (cwd w1) t (fst e)) targets)"
      then obtain e where "e \<in> set targets" "resolve ?d t = file_in ?d t (fst e)"
        unfolding d1 by auto
      with target_paths(4)[of e ?d t] show False by simp
    qed
  qed
  also from s1 have "fs w1 (resolve ?d t) = Some Dir" by (rule os_makedirs_Inr(1))
  finally show "fs w' (resolve (cwd w) t) = Some Dir" .
qed

subsection \<open>Putting a run together\<close>

lemma is_fileD: "is_file f p \<Longrightarrow> \<exists>c. f p = Some (File c)"
  by (auto simp: is_file_def split: option.splits node.splits)

lemma prefix_returns:
  assumes "os_makedirs t w = (Inr u, w1)"
    and "for_targets run s t targets w1 = (Inr u', w2)"
    and "run (cwd w) (tile_argv s t) (fs w2) = Some (0, f3)"
    and "run (cwd w) (temp_argv s (os_path_join t ''favicon_temp.png'')) f3 = Some (0, f4)"
  shows "\<exists>w4. block (take 6 (statements run s t)) w = (Inr (), w4) \<and> fs w4 = f4 \<and>
           cwd w4 = cwd w"
proof -
  from os_makedirs_Inr(6)[OF assms(1)] for_targets_cwd[OF assms(2)] have "cwd w2 = cwd w"
    by simp
  with assms show ?thesis
    by (simp add: statements_def Let_def block_Cons_Inr print_Inr subprocess_run_Inr)
qed

lemma tail_returns:
  assumes cv: "sips_converts run" and cp: "cp_copies run"
    and temp: "is_file (fs w4) (file_in (cwd w4) t ''favicon_temp.png'')"
    and conv: "run (cwd w4) (ico_argv (os_path_join t ''favicon_temp.png'') t) (fs w4) =
                 Some (rc, f5)"
    and copy: "rc \<noteq> 0 \<Longrightarrow>
                 \<exists>f6. run (cwd w4) (cp_argv (os_path_join t ''favicon_temp.png'') t) f5 =
                   Some (0, f6)"
  shows "\<exists>w5. block (drop 6 (statements run s t)) w4 = (Inr (), w5)"
proof -
  let ?d = "cwd w4"
  let ?tmp = "os_path_join t ''favicon_temp.png''"
  let ?temp = "file_in ?d t ''favicon_temp.png''"
  let ?ico = "file_in ?d t ''favicon.ico''"
  from convert_effect(3)[OF cv conv] temp have temp5: "is_file f5 ?temp"
    by (simp add: is_file_def)
  then obtain c5 where c5: "f5 ?temp = Some (File c5)" by (auto dest: is_fileD)
  then have st5: "stat ?d f5 ?tmp = Some (File c5)" by (simp add: stat_join literal_names)
  show ?thesis
  proof (cases "rc = 0")
    case True
    with conv st5 show ?thesis
      by (simp add: statements_def Let_def block.simps try_except_CalledProcessError_def
          subprocess_run_def os_remove_def)
  next
    case False
    with copy obtain f6 where f6: "run ?d (cp_argv ?tmp t) f5 = Some (0, f6)" by blast
    from copy_effect[OF cp f6] obtain c where "f6 = f5(?ico \<mapsto> File c)" by auto
    with c5 special_paths(3)[of ?d t] have "f6 ?temp = Some (File c5)" by simp
    then have "stat ?d f6 ?tmp = Some (File c5)" by (simp add: stat_join literal_names)
    with False conv f6 show ?thesis
      by (simp add: statements_def Let_def block.simps try_except_CalledProcessError_def
          subprocess_run_def os_remove_def print_def)
  qed
qed

lemma run_returns:
  assumes "os_path_exists s w"
    and "block (take 6 (statements run s t)) w = (Inr (), w4)"
    and "block (drop 6 (statements run s t)) w4 = (Inr (), w5)"
  shows "generate_favicons run s t w = (Inr (), w5)"
  using assms block_take_drop[OF assms(2)] by (simp add: generate_favicons_def)

subsection \<open>Runs on a reliable tool\<close>

lemma reliable_prefix:
  assumes rs: "sips_resizes run" and rr: "resize_reliable run"
    and sp: "file_spelling s"
    and src: "is_file (fs w) (resolve (cwd w) s)" and mk: "os_makedirs t w = (Inr u, w1)"
  shows "\<exists>w4. block (take 6 (statements run s t)) w = (Inr (), w4) \<and>
           is_file (fs w4) (file_in (cwd w) t ''favicon_temp.png'') \<and>
           is_file (fs w4) (resolve (cwd w) s) \<and> cwd w4 = cwd w"
proof -
  let ?d = "cwd w"
  let ?tmp = "os_path_join t ''favicon_temp.png''"
  note d1 = os_makedirs_Inr(6)[OF mk]
  from src obtain c0 where "fs w (resolve ?d s) = Some (File c0)" by (auto dest: is_fileD)
  with os_makedirs_Inr(4)[OF mk] have "fs w1 (resolve ?d s) = Some (File c0)" by simp
  then have "is_file (fs w1) (resolve (cwd w1) s)" by (simp add: is_file_def d1)
  with for_targets_reliable[OF rs rr sp _ targets_positive, of w1 t] obtain w2 where
    s2: "for_targets run s t targets w1 = (Inr (), w2)" and
    src2: "is_file (fs w2) (resolve ?d s)"
    by (auto simp: d1)
  from src2 sp obtain c2 where "stat ?d (fs w2) s = Some (File c2)"
    by (auto simp: stat_file dest: is_fileD)
  with rr obtain f3 where f3: "run ?d (tile_argv s t) (fs w2) = Some (0, f3)"
    unfolding resize_reliable_def tile_argv_def str_literals[symmetric] by fastforce
  from resize_effect(2)[OF rs f3[unfolded tile_argv_eq]] src2
  have src3: "is_file f3 (resolve ?d s)"
    by (auto simp: is_file_def)
  with sp obtain c3 where "stat ?d f3 s = Some (File c3)"
    by (auto simp: stat_file dest: is_fileD)
  with rr obtain f4 where f4: "run ?d (temp_argv s ?tmp) f3 = Some (0, f4)"
    unfolding resize_reliable_def temp_argv_def str_literals[symmetric] by fastforce
  from resize_effect(2)[OF rs f4[unfolded temp_argv_eq]] src3
  have "is_file f4 (resolve ?d s)" "is_file f4 (file_in ?d t ''favicon_temp.png'')"
    by (auto simp: is_file_def)
  with prefix_returns[OF mk s2 f3 f4] show ?thesis by auto
qed

lemma reliable_run:
  assumes c: "tool_contract run" and rr: "resize_reliable run" and cs: "convert_starts run"
    and cr: "cp_reliable run"
    and ex: "os_path_exists s w"
    and src: "is_file (fs w) (resolve (cwd w) s)" and mk: "os_makedirs t w = (Inr u, w1)"
  shows "fst (generate_favicons run s t w) = Inr ()"
proof -
  let ?tmp = "os_path_join t ''favicon_temp.png''"
  from c have rs: "sips_resizes run" and cv: "sips_converts run" and cp: "cp_copies run"
    by (simp_all add: tool_contract_def)
  from ex src have sp: "file_spelling s" by (rule exists_file_spelling)
  from reliable_prefix[OF rs rr sp src mk] obtain w4 where
    pre: "block (take 6 (statements run s t)) w = (Inr (), w4)" and
    temp4: "is_file (fs w4) (file_in (cwd w4) t ''favicon_temp.png'')"
    by auto
  from cs obtain rc f5 where f5: "run (cwd w4) (ico_argv ?tmp t) (fs w4) = Some (rc, f5)"
    unfolding convert_starts_def ico_argv_def by blast
  from convert_effect(3)[OF cv f5] temp4
  have "is_file f5 (file_in (cwd w4) t ''favicon_temp.png'')"
    by (simp add: is_file_def)
  then obtain c5 where "stat (cwd w4) f5 ?tmp = Some (File c5)"
    by (auto simp: stat_join literal_names dest: is_fileD)
  with cr have "\<exists>f6. run (cwd w4) (cp_argv ?tmp t) f5 = Some (0, f6)"
    unfolding cp_reliable_def cp_argv_def by blast
  with tail_returns[OF cv cp temp4 f5] obtain w5 where
    "block (drop 6 (statements run s t)) w4 = (Inr (), w5)"
    by blast
  with run_returns[OF ex pre] show ?thesis by simp
qed

subsection \<open>A second run on a tool whose outcomes can be repeated\<close>

lemma parent_of_output: "simple n \<Longrightarrow> butlast (file_in d t n) = resolve d t"
  by (simp add: resolve_join)

lemma resize_again:
  assumes rp: "repeatable run"
    and a: "run d (resize_argv s t (n, wd, ht)) f = Some (0, f')"
    and g: "is_file g (resolve d s)" and dir: "g (resolve d t) = Some Dir"
    and n: "simple n"
  shows "\<exists>g'. run d (resize_argv s t (n, wd, ht)) g = Some (0, g')"
proof -
  from rp have "again run d (resize_argv s t (n, wd, ht)) s (os_path_join t n)"
    unfolding repeatable_def resize_argv_def by simp
  with a g dir show ?thesis
    unfolding again_def parent_of_output[OF n] by fastforce
qed

lemma for_targets_again:
  assumes rs: "sips_resizes run" and rp: "repeatable run"
  shows "for_targets run s t es w = (Inr u, w') \<Longrightarrow> is_file (fs v) (resolve (cwd v) s) \<Longrightarrow>
         fs v (resolve (cwd v) t) = Some Dir \<Longrightarrow> \<forall>e \<in> set es. simple (fst e) \<Longrightarrow>
         cwd v = cwd w \<Longrightarrow>
         \<exists>v'. for_targets run s t es v = (Inr (), v') \<and> is_file (fs v') (resolve (cwd v) s) \<and>
           fs v' (resolve (cwd v) t) = Some Dir"
proof (induction es arbitrary: w v)
  case Nil
  then show ?case by simp
next
  case (Cons e es)
  obtain n wd ht where e: "e = (n, wd, ht)" by (cases e)
  with Cons.prems(4) have n: "simple n" by simp
  from Cons.prems(1) obtain f where
    f: "run (cwd w) (resize_argv s t e) (fs w) = Some (0, f)" and
    rest: "for_targets run s t es
          (w\<lparr>stdout := stdout w @ [progress_line e], fs := f,
             calls := calls w @ [resize_argv s t e]\<rparr>) = (Inr u, w')"
    by (auto simp: for_targets_Cons_Inr)
  from resize_again[OF rp f[folded Cons.prems(5), unfolded e] Cons.prems(2,3) n] obtain g where
    g: "run (cwd v) (resize_argv s t e) (fs v) = Some (0, g)"
    unfolding e by blast
  from resize_effect(2)[OF rs g[unfolded e]] obtain img where
    g': "g = (fs v)(file_in (cwd v) t n \<mapsto> File img)" by blast
  with Cons.prems(2) have src: "is_file g (resolve (cwd v) s)"
    by (simp add: is_file_def)
  from g' Cons.prems(3) file_in_neq_dir[OF n, of "cwd v" t]
  have dir: "g (resolve (cwd v) t) = Some Dir" by simp
  let ?v = "v\<lparr>stdout := stdout v @ [progress_line e], fs := g,
             calls := calls v @ [resize_argv s t e]\<rparr>"
  from src dir Cons.prems(4,5) have "is_file (fs ?v) (resolve (cwd ?v) s)"
    and "fs ?v (resolve (cwd ?v) t) = Some Dir" and "\<forall>e \<in> set es. simple (fst e)"
    and "cwd ?v = cwd (w\<lparr>stdout := stdout w @ [progress_line e], fs := f,
             calls := calls w @ [resize_argv s t e]\<rparr>)"
    by simp_all
  from Cons.IH[OF rest this] g show ?case
    by (auto simp: for_targets_Cons_Inr)
qed

lemma run_again:
  assumes c: "tool_contract run" and rp: "repeatable run"
    and ex: "os_path_exists s w"
    and r1: "generate_favicons run s t w = (Inr (), w')"
    and ex': "os_path_exists s w'"
    and src: "is_file (fs w') (resolve (cwd w) s)"
    and mk: "os_makedirs t w' = (Inr (), w')"
  shows "\<exists>w''. generate_favicons run s t w' = (Inr (), w'')"
proof -
  let ?d = "cwd w"
  let ?tmp = "os_path_join t ''favicon_temp.png''"
  let ?temp = "file_in ?d t ''favicon_temp.png''"
  let ?ico = "file_in ?d t ''favicon.ico''"
  let ?dir = "resolve ?d t"
  from c have rs: "sips_resizes run" and cv: "sips_converts run" and cp: "cp_copies run"
    by (simp_all add: tool_contract_def)
  from ex r1 obtain w1 w2 f3 f4 f5 f6 rest where
    s1: "os_makedirs t w = (Inr (), w1)" and
    s2: "for_targets run s t targets w1 = (Inr (), w2)" and
    f3: "run ?d (tile_argv s t) (fs w2) = Some (0, f3)" and
    f4: "run ?d (temp_argv s ?tmp) f3 = Some (0, f4)" and
    alt: "(rest = [] \<and> f5 = f4 \<and> run ?d (ico_argv ?tmp t) f4 = Some (0, f6)) \<or>
          (\<exists>rc. rc \<noteq> 0 \<and> run ?d (ico_argv ?tmp t) f4 = Some (rc, f5) \<and>
             run ?d (cp_argv ?tmp t) f5 = Some (0, f6) \<and> rest = [cp_argv ?tmp t])" and
    "is_file f6 ?temp" and "fs w' = f6(?temp := None)" and
    "calls w' = calls w2 @ [tile_argv s t, temp_argv s ?tmp, ico_argv ?tmp t] @ rest" and
    d': "cwd w' = cwd w"
    by (rule run_anatomy)
  note d1 = os_makedirs_Inr(6)[OF s1]
  note lit = literal_names
  from src have src': "is_file (fs w') (resolve (cwd w') s)" by (simp add: d')
  from target_dir_kept(1)[OF c ex r1] have dir': "fs w' (resolve (cwd w') t) = Some Dir"
    by (simp add: d')
  have names: "\<forall>e \<in> set targets. simple (fst e)" by (simp add: target_names(1))
  from for_targets_again[OF rs rp s2 src' dir' names] d1 d' obtain v2 where
    v2: "for_targets run s t targets w' = (Inr (), v2)" and
    src2: "is_file (fs v2) (resolve ?d s)" and dir2: "fs v2 ?dir = Some Dir"
    by auto
  from resize_again[OF rp f3[unfolded tile_argv_eq] src2 dir2 lit(1)] obtain g3 where
    g3: "run ?d (tile_argv s t) (fs v2) = Some (0, g3)"
    by (auto simp: tile_argv_eq)
  from resize_effect(2)[OF rs g3[unfolded tile_argv_eq]] obtain i3 where
    e3: "g3 = (fs v2)(file_in ?d t ''mstile-310x150.png'' \<mapsto> File i3)" by blast
  with src2 have src3: "is_file g3 (resolve ?d s)" by (simp add: is_file_def)
  from e3 dir2 file_in_neq_dir[OF lit(1), of ?d t] have dir3: "g3 ?dir = Some Dir" by simp
  from resize_again[OF rp f4[unfolded temp_argv_eq] src3 dir3 lit(3)] obtain g4 where
    g4: "run ?d (temp_argv s ?tmp) g3 = Some (0, g4)"
    by (auto simp: temp_argv_eq)
  from resize_effect(2)[OF rs g4[unfolded temp_argv_eq]] obtain i4 where
    e4: "g4 = g3(?temp \<mapsto> File i4)" by blast
  then have temp4: "is_file g4 ?temp" by (simp add: is_file_def)
  from e4 dir3 file_in_neq_dir[OF lit(3), of ?d t] have dir4: "g4 ?dir = Some Dir" by simp
  from prefix_returns[OF mk v2 g3[folded d'] g4[folded d']] obtain v4 where
    pre: "block (take 6 (statements run s t)) w' = (Inr (), v4)" and
    v4: "fs v4 = g4" "cwd v4 = ?d"
    by (auto simp: d')
  from rp have ag: "again run ?d (ico_argv ?tmp t) ?tmp (os_path_join t ''favicon.ico'')"
    "again run ?d (cp_argv ?tmp t) ?tmp (os_path_join t ''favicon.ico'')"
    unfolding repeatable_def ico_argv_def cp_argv_def by simp_all
  note parent = parent_of_output[OF lit(2), of ?d t]
  from alt obtain rc fa where conv1: "run ?d (ico_argv ?tmp t) f4 = Some (rc, fa)"
    and copy1: "rc \<noteq> 0 \<Longrightarrow> run ?d (cp_argv ?tmp t) fa = Some (0, f6)"
    by auto
  from ag(1) conv1 temp4 dir4 obtain rc' g5 where
    conv2: "run ?d (ico_argv ?tmp t) g4 = Some (rc', g5)" and z: "rc = 0 \<Longrightarrow> rc' = 0"
    unfolding again_def parent by blast
  have "\<exists>g6. run ?d (cp_argv ?tmp t) g5 = Some (0, g6)" if "rc' \<noteq> 0"
  proof -
    from that z have "rc \<noteq> 0" by auto
    then have "run ?d (cp_argv ?tmp t) fa = Some (0, f6)" by (rule copy1)
    moreover from convert_effect(3)[OF cv conv2] temp4 have "is_file g5 ?temp"
      by (simp add: is_file_def)
    moreover from convert_effect(1)[OF cv conv2, of ?dir] dir4
      file_in_neq_dir[OF lit(2), of ?d t]
    have "g5 ?dir = Some Dir" by simp
    ultimately show ?thesis using ag(2) unfolding again_def parent by fastforce
  qed
  with tail_returns[OF cv cp, of v4 t rc' g5 s] temp4 conv2 v4 obtain v5 where
    "block (drop 6 (statements run s t)) v4 = (Inr (), v5)"
    by auto
  with run_returns[OF ex' pre] show ?thesis by blast
qed

subsection \<open>The reference host\<close>

lemma host_resizes: "sips_resizes (host ico)"
  unfolding sips_resizes_def
  by (auto simp: host_def parse_nat_str is_file_def stat_file
      split: if_splits option.splits node.splits)

lemma host_converts: "sips_converts (host ico)"
  unfolding sips_converts_def
  by (auto simp: host_def is_file_def split: if_splits option.splits node.splits)

lemma host_copies: "cp_copies (host ico)"
  unfolding cp_copies_def
  by (auto simp: host_def stat_file split: if_splits option.splits node.splits)

lemma host_contract: "tool_contract (host ico)"
  by (simp add: tool_contract_def host_resizes host_converts host_copies)

lemma host_resize_reliable: "resize_reliable (host ico)"
  unfolding resize_reliable_def
  by (auto simp: host_def parse_nat_str split: option.splits node.splits)

lemma host_convert_starts: "convert_starts (host ico)"
  unfolding convert_starts_def
  by (auto simp: host_def split: option.splits node.splits)

lemma host_cp_reliable: "cp_reliable (host ico)"
  unfolding cp_reliable_def
  by (auto simp: host_def split: option.splits node.splits)

lemma stat_again:
  "stat d f p = Some (File c) \<Longrightarrow> is_file g (resolve d p) \<Longrightarrow> \<exists>c'. stat d g p = Some (File c')"
  by (auto simp: stat_file dest: is_fileD)

lemma host_repeatable: "repeatable (host ico)"
proof -
  have 1: "again (host ico) d [''sips'', ''-z'', a, b, src, ''--out'', dst] src dst"
    for d a b src dst
    unfolding again_def
  proof (intro allI impI)
    fix f rc f' g
    assume r: "host ico d [''sips'', ''-z'', a, b, src, ''--out'', dst] f = Some (rc, f')"
      and g: "is_file g (resolve d src)"
      and "g (butlast (resolve d dst)) = Some Dir"
    show "\<exists>rc' g'. host ico d [''sips'', ''-z'', a, b, src, ''--out'', dst] g = Some (rc', g') \<and>
        (rc = 0 \<longrightarrow> rc' = 0)"
    proof (cases "rc = 0")
      case True
      with r obtain h w c where "parse_nat a = Some h" "parse_nat b = Some w" "0 < h" "0 < w"
        "stat d f src = Some (File c)"
        by (auto simp: host_def split: option.splits node.splits if_splits)
      moreover with g obtain c' where "stat d g src = Some (File c')"
        by (auto dest: stat_again)
      ultimately show ?thesis by (simp add: host_def)
    next
      case False
      then show ?thesis
        by (auto simp: host_def split: option.splits node.splits)
    qed
  qed
  have 2: "again (host ico) d [''sips'', ''-s'', ''format'', ''ico'', src, ''--out'', dst] src dst"
    for d src dst
    unfolding again_def
  proof (intro allI impI)
    fix f rc f' g
    assume r: "host ico d [''sips'', ''-s'', ''format'', ''ico'', src, ''--out'', dst] f =
        Some (rc, f')"
      and g: "is_file g (resolve d src)"
      and "g (butlast (resolve d dst)) = Some Dir"
    show "\<exists>rc' g'. host ico d [''sips'', ''-s'', ''format'', ''ico'', src, ''--out'', dst] g =
        Some (rc', g') \<and> (rc = 0 \<longrightarrow> rc' = 0)"
    proof (cases "rc = 0")
      case True
      with r obtain c where "ico" "stat d f src = Some (File c)"
        by (auto simp: host_def split: option.splits node.splits if_splits)
      moreover with g obtain c' where "stat d g src = Some (File c')"
        by (auto dest: stat_again)
      ultimately show ?thesis by (simp add: host_def)
    next
      case False
      then show ?thesis
        by (auto simp: host_def split: option.splits node.splits)
    qed
  qed
  have 3: "again (host ico) d [''cp'', src, dst] src dst" for d src dst
    unfolding again_def
  proof (intro allI impI)
    fix f rc f' g
    assume r: "host ico d [''cp'', src, dst] f = Some (rc, f')"
      and g: "is_file g (resolve d src)"
      and "g (butlast (resolve d dst)) = Some Dir"
    show "\<exists>rc' g'. host ico d [''cp'', src, dst] g = Some (rc', g') \<and> (rc = 0 \<longrightarrow> rc' = 0)"
    proof (cases "rc = 0")
      case True
      with r obtain c where "stat d f src = Some (File c)"
        by (auto simp: host_def split: option.splits node.splits if_splits)
      with g obtain c' where "stat d g src = Some (File c')"
        by (auto dest: stat_again)
      then show ?thesis by (simp add: host_def)
    next
      case False
      then show ?thesis
        by (auto simp: host_def split: option.splits node.splits)
    qed
  qed
  from 1 2 3 show ?thesis unfolding repeatable_def by simp
qed


subsection \<open>The example worlds\<close>

lemma example_paths:
  "resolve [''work''] ''out'' = [''work'', ''out'']"
  "resolve [''work''] ''logo.png'' = [''work'', ''logo.png'']"
  "resolve [''work''] ''logo.jpg'' = [''work'', ''logo.jpg'']"
  "resolve [''work''] ''out/favicon_temp.png'' = [''work'', ''out'', ''favicon_temp.png'']"
  "file_spelling ''logo.png''" "file_spelling ''logo.jpg''"
  "file_spelling ''out/favicon_temp.png''"
  by code_simp+

lemma parent_dirs_out: "parent_dirs [''work'', ''out''] = [[''work'']]"
  by code_simp

lemma example_makedirs:
  "os_makedirs ''out'' example_world =
     (Inr (), example_world\<lparr>fs := (fs example_world)([''work'', ''out''] \<mapsto> Dir)\<rparr>)"
  by (simp add: os_makedirs_def example_world_def example_paths parent_dirs_out)

lemma example_source:
  "is_file (fs example_world) (resolve (cwd example_world) ''logo.png'')"
  "os_path_exists ''logo.png'' example_world"
  by (simp_all add: example_world_def is_file_def os_path_exists_def stat_def example_paths)

lemma example_cwd: "cwd example_world = [''work'']"
  by (simp add: example_world_def)

lemma example_run:
  "generate_favicons (host ico) ''logo.png'' ''out'' example_world =
     (Inr (), snd (generate_favicons (host ico) ''logo.png'' ''out'' example_world))"
  using reliable_run[OF host_contract host_resize_reliable host_convert_starts host_cp_reliable
      example_source(2,1) example_makedirs, of ico]
  by (simp add: prod_eq_iff)



subsection \<open>The invocations of a run\<close>

lemma resize_argv_explicit:
  "resize_argv s t =
     (\<lambda>(filename, width, height).
        [''sips'', ''-z'', str height, str width, s, ''--out'', os_path_join t filename])"
  by (auto simp: resize_argv_def fun_eq_iff)

lemma join_inj: "simple a \<Longrightarrow> simple b \<Longrightarrow> os_path_join t a = os_path_join t b \<Longrightarrow> a = b"
  using file_in_inj[of a b "[]" t] by simp

lemma tile_call_unique:
  assumes "os_path_exists s w" and "generate_favicons run s t w = (Inr (), w')"
  shows "filter (\<lambda>argv. last argv = os_path_join t ''mstile-310x150.png'')
           (drop (length (calls w)) (calls w')) = [tile_argv s t]"
proof -
  let ?tile = "os_path_join t ''mstile-310x150.png''"
  from run_calls[OF assms] obtain rest where
    cs: "calls w' = calls w @ map (resize_argv s t) targets @
           [tile_argv s t, temp_argv s (os_path_join t ''favicon_temp.png''),
            ico_argv (os_path_join t ''favicon_temp.png'') t] @ rest" and
    rest: "rest = [] \<or> rest = [cp_argv (os_path_join t ''favicon_temp.png'') t]"
    by blast
  have lit: "os_path_join t ''favicon_temp.png'' \<noteq> ?tile" "os_path_join t ''favicon.ico'' \<noteq> ?tile"
    using join_inj[of "''favicon_temp.png''" "''mstile-310x150.png''" t]
      join_inj[of "''favicon.ico''" "''mstile-310x150.png''" t]
    by (auto simp: literal_names)
  have "os_path_join t (fst e) \<noteq> ?tile" if "e \<in> set targets" for e
    using target_names(1,2)[OF that] join_inj[of "fst e" "''mstile-310x150.png''" t]
    by (auto simp: literal_names)
  then have "filter (\<lambda>argv. last argv = ?tile) (map (resize_argv s t) targets) = []"
    by (auto simp: filter_empty_conv resize_argv_def split: prod.splits)
  moreover have "filter (\<lambda>argv. last argv = ?tile) rest = []"
    using rest lit by (auto simp: cp_argv_def)
  ultimately show ?thesis
    using lit by (simp add: cs tile_argv_def temp_argv_def ico_argv_def)
qed

subsection \<open>A failing entry\<close>

lemma for_targets_append:
  "for_targets run s t (xs @ ys) w =
     (case for_targets run s t xs w of
        (Inl e, w') \<Rightarrow> (Inl e, w')
      | (Inr _, w') \<Rightarrow> for_targets run s t ys w')"
  by (induction xs arbitrary: w) (auto simp: for_targets.simps(2) split: prod.splits sum.splits)

lemma for_targets_cong:
  "(\<And>e d f. e \<in> set es \<Longrightarrow> run d (resize_argv s t e) f = run' d (resize_argv s t e) f) \<Longrightarrow>
   for_targets run s t es w = for_targets run' s t es w"
proof (induction es arbitrary: w)
  case Nil
  then show ?case by simp
next
  case (Cons e es)
  then show ?case
    by (simp add: for_targets.simps(2) block.simps print_def subprocess_run_def
        split: prod.splits sum.splits option.splits)
qed

lemma for_targets_fails:
  assumes "run (cwd w) (resize_argv s t e) (fs w) = Some (rc, f)" and "rc \<noteq> 0"
  shows "for_targets run s t (e # es) w =
           (Inl (CalledProcessError rc (resize_argv s t e)),
            w\<lparr>stdout := stdout w @ [progress_line e], fs := f,
              calls := calls w @ [resize_argv s t e]\<rparr>)"
  using assms by (simp add: for_targets.simps(2) block.simps print_def subprocess_run_def)

subsection \<open>A statement that raises\<close>

lemma block_raises:
  "block (take n ss) w = (Inr (), w1) \<Longrightarrow> n < length ss \<Longrightarrow> (ss ! n) w1 = (Inl e, w') \<Longrightarrow>
   block ss w = (Inl e, w')"
proof -
  assume a: "block (take n ss) w = (Inr (), w1)" and n: "n < length ss"
    and r: "(ss ! n) w1 = (Inl e, w')"
  from n have "drop n ss = ss ! n # drop (Suc n) ss" by (simp add: Cons_nth_drop_Suc)
  with block_take_drop[OF a] r show ?thesis by (simp add: block.simps)
qed

lemma fallback_failure:
  assumes ex: "os_path_exists s w"
    and pre: "block (take 6 (statements run s t)) w = (Inr (), w4)"
    and conv: "run (cwd w4) (ico_argv (os_path_join t ''favicon_temp.png'') t) (fs w4) =
                 Some (rc, f5)"
    and rc: "rc \<noteq> 0"
    and cp: "run (cwd w4) (cp_argv (os_path_join t ''favicon_temp.png'') t) f5 = Some (rc', f6)"
    and rc': "rc' \<noteq> 0"
  shows "generate_favicons run s t w =
           (Inl (CalledProcessError rc' (cp_argv (os_path_join t ''favicon_temp.png'') t)),
            w4\<lparr>fs := f6,
               stdout := stdout w4 @ [''sips ico export failed, falling back to PNG-as-ICO...''],
               calls := calls w4 @ [ico_argv (os_path_join t ''favicon_temp.png'') t,
                                    cp_argv (os_path_join t ''favicon_temp.png'') t]\<rparr>)"
proof -
  let ?ss = "statements run s t"
  have "6 < length ?ss" by (simp add: statements_def Let_def)
  moreover have "(?ss ! 6) w4 =
           (Inl (CalledProcessError rc' (cp_argv (os_path_join t ''favicon_temp.png'') t)),
            w4\<lparr>fs := f6,
               stdout := stdout w4 @ [''sips ico export failed, falling back to PNG-as-ICO...''],
               calls := calls w4 @ [ico_argv (os_path_join t ''favicon_temp.png'') t,
                                    cp_argv (os_path_join t ''favicon_temp.png'') t]\<rparr>)"
    using conv rc cp rc'
    by (simp add: statements_def Let_def try_except_CalledProcessError_def subprocess_run_def
        block.simps print_def)
  ultimately have "block ?ss w = (Inl (CalledProcessError rc' (cp_argv (os_path_join t ''favicon_temp.png'') t)),
            w4\<lparr>fs := f6,
               stdout := stdout w4 @ [''sips ico export failed, falling back to PNG-as-ICO...''],
               calls := calls w4 @ [ico_argv (os_path_join t ''favicon_temp.png'') t,
                                    cp_argv (os_path_join t ''favicon_temp.png'') t]\<rparr>)"
    by (rule block_raises[OF pre])
  with ex show ?thesis by (simp add: generate_favicons_def)
qed

subsection \<open>The fallback copy\<close>


subsection \<open>Faulty hosts and the example world\<close>

lemma fail_when_cp:
  "sips_resizes (fail_when (\<lambda>argv. hd argv = ''cp'') run) = sips_resizes run"
  "resize_reliable (fail_when (\<lambda>argv. hd argv = ''cp'') run) = resize_reliable run"
  by (simp_all add: sips_resizes_def resize_reliable_def fail_when_def)


lemma example_prefix:
  assumes "sips_resizes run" and "resize_reliable run"
  shows "block (take 6 (statements run ''logo.png'' ''out'')) example_world =
           (Inr (), snd (block (take 6 (statements run ''logo.png'' ''out'')) example_world))"
    and "is_file (fs (snd (block (take 6 (statements run ''logo.png'' ''out'')) example_world)))
           (file_in [''work''] ''out'' ''favicon_temp.png'')"
    and "cwd (snd (block (take 6 (statements run ''logo.png'' ''out'')) example_world)) =
           [''work'']"
  using reliable_prefix[OF assms example_paths(5) example_source(1) example_makedirs]
  by (auto simp: example_cwd)

lemma example_loop_two:
  "for_targets
     (fail_when (\<lambda>argv. last argv = os_path_join ''out'' ''android-chrome-256x256.png'') (host True))
     ''logo.png'' ''out'' (take 2 targets) w =
   for_targets (host True) ''logo.png'' ''out'' (take 2 targets) w"
proof (rule for_targets_cong)
  fix e d f
  assume "e \<in> set (take 2 targets)"
  then have e: "e \<in> set targets" "fst e \<noteq> ''android-chrome-256x256.png''"
    by (auto simp: targets_def)
  have "simple ''android-chrome-256x256.png''" by (simp add: simple_def)
  with e target_names(1)[OF e(1)]
  have "os_path_join ''out'' (fst e) \<noteq> os_path_join ''out'' ''android-chrome-256x256.png''"
    by (auto dest: join_inj)
  then have "last (resize_argv ''logo.png'' ''out'' e) \<noteq>
      os_path_join ''out'' ''android-chrome-256x256.png''"
    by (cases e) (simp add: resize_argv_def)
  then show "fail_when (\<lambda>argv. last argv = os_path_join ''out'' ''android-chrome-256x256.png'')
          (host True) d (resize_argv ''logo.png'' ''out'' e) f =
        host True d (resize_argv ''logo.png'' ''out'' e) f"
    by (simp add: fail_when_def)
qed

subsection \<open>The fallback on a source that is not a PNG\<close>


section \<open>The claims\<close>

text \<open>
  \<^bold>\<open>C1\<close> (as amended). The table is a fixed list of exactly 30 entries, and a run that
  finds its source and returns, on a tool that honours the contract, leaves exactly 32
  files of its own in the target directory: the 30 sized PNGs named by the table, the
  wide tile \<^verbatim>\<open>mstile-310x150.png\<close> and \<^verbatim>\<open>favicon.ico\<close>. Their 32 paths name
  pairwise distinct files, each is a file after the run, and every other file that
  exists after the run existed before it with the same content.
\<close>

theorem outputs_written:
  assumes c: "tool_contract run" and ex: "os_path_exists source_path w"
    and r: "generate_favicons run source_path target_dir w = (Inr (), w')"
  shows "length targets = 30 \<and> length output_files = 32 \<and>
         distinct (map (file_in (cwd w) target_dir) output_files) \<and>
         (\<forall>p \<in> set (map (file_in (cwd w) target_dir) output_files). is_file (fs w') p) \<and>
         (\<forall>p c. p \<notin> set (map (file_in (cwd w) target_dir) output_files) \<longrightarrow>
            fs w' p = Some (File c) \<longrightarrow> fs w p = Some (File c))"
proof -
  let ?t = target_dir
  let ?d = "cwd w"
  let ?outs = "set (map (file_in ?d ?t) output_files)"
  from c have rs: "sips_resizes run" by (simp add: tool_contract_def)
  from c ex r obtain w1 w2 where
    s1: "os_makedirs ?t w = (Inr (), w1)" and
    s2: "for_targets run source_path ?t targets w1 = (Inr (), w2)" and
    frame: "\<And>p. p \<noteq> file_in ?d ?t ''mstile-310x150.png'' \<Longrightarrow> p \<noteq> file_in ?d ?t ''favicon.ico'' \<Longrightarrow>
        p \<noteq> file_in ?d ?t ''favicon_temp.png'' \<Longrightarrow> fs w' p = fs w2 p" and
    tile: "\<exists>img. fs w' (file_in ?d ?t ''mstile-310x150.png'') = Some (File img) \<and>
        img_width img = 310 \<and> img_height img = 150" and
    ico: "is_file (fs w') (file_in ?d ?t ''favicon.ico'')" and
    temp: "fs w' (file_in ?d ?t ''favicon_temp.png'') = None" and
    d1: "cwd w1 = cwd w"
    by (rule run_effect) blast
  have len: "length targets = 30" "length output_files = 32"
    by (simp_all add: output_files_def targets_def)
  have dist: "distinct (map (file_in ?d ?t) output_files)"
    using paths_distinct[of ?d ?t] by simp
  have files: "is_file (fs w') p" if "p \<in> ?outs" for p
    using c ex r that by (rule outputs_are_files)
  have other: "fs w p = Some (File c)" if "p \<notin> ?outs" "fs w' p = Some (File c)" for p c
  proof -
    from that temp have "p \<noteq> file_in ?d ?t ''favicon_temp.png''" by auto
    moreover from that(1) have "p \<noteq> file_in ?d ?t ''mstile-310x150.png''"
      "p \<noteq> file_in ?d ?t ''favicon.ico''"
      and loop: "p \<notin> set (map (\<lambda>e. file_in (cwd w1) ?t (fst e)) targets)"
      unfolding output_paths d1 by auto
    ultimately have "fs w' p = fs w2 p" by (simp add: frame)
    also from for_targets_frame[OF rs s2 loop] have "fs w2 p = fs w1 p" .
    finally have "fs w1 p = Some (File c)" using that(2) by simp
    then show ?thesis by (simp only: os_makedirs_Inr(4)[OF s1])
  qed
  from len dist files other show ?thesis by blast
qed

theorem outputs_written_witness:
  "length targets = 30 \<and> length output_files = 32 \<and>
   distinct (map (file_in (cwd example_world) ''out'') output_files) \<and>
   is_file (fs (snd (generate_favicons (host True) ''logo.png'' ''out'' example_world)))
     (file_in (cwd example_world) ''out'' ''apple-touch-icon.png'')"
proof -
  let ?w' = "snd (generate_favicons (host True) ''logo.png'' ''out'' example_world)"
  note t = outputs_written[OF host_contract example_source(2) example_run[of True]]
  have m: "''apple-touch-icon.png'' \<in> set output_files"
    by (simp add: output_files_def targets_def)
  from t have "\<forall>x \<in> set output_files. is_file (fs ?w') (file_in (cwd example_world) ''out'' x)"
    by simp
  then have "is_file (fs ?w') (file_in (cwd example_world) ''out'' ''apple-touch-icon.png'')"
    using m by (rule bspec)
  with t show ?thesis by simp
qed

text \<open>
  \<^bold>\<open>C1\<close> as stated speaks of 29 entries and 31 files. The table of the source has
  30 lines, so both counts are off by one.
\<close>

theorem table_length_counterexample: "length targets \<noteq> 29 \<and> length output_files \<noteq> 31"
  by (simp add: output_files_def targets_def)

text \<open>
  \<^bold>\<open>C2\<close>. After a run that finds its source and returns, on a tool that honours the
  contract, every entry \<open>(filename, width, height)\<close> of the table has its file at
  \<^verbatim>\<open>target_dir/filename\<close>, of exactly the declared width and height; and the first
  invocations of the run are one resize per entry, in the order of the table, each
  \<^verbatim>\<open>sips -z str(height) str(width) source_path --out target_dir/filename\<close>.
\<close>

theorem entries_resized:
  assumes c: "tool_contract run" and ex: "os_path_exists source_path w"
    and r: "generate_favicons run source_path target_dir w = (Inr (), w')"
  shows "(\<forall>(filename, width, height) \<in> set targets.
            \<exists>img. fs w' (file_in (cwd w) target_dir filename) = Some (File img) \<and>
              int (img_width img) = width \<and> int (img_height img) = height) \<and>
         take (length targets) (drop (length (calls w)) (calls w')) =
           map (\<lambda>(filename, width, height).
                  [''sips'', ''-z'', str height, str width, source_path, ''--out'',
                   os_path_join target_dir filename]) targets"
proof -
  let ?t = target_dir
  let ?d = "cwd w"
  from c have rs: "sips_resizes run" by (simp add: tool_contract_def)
  from c ex r obtain w1 w2 where
    s2: "for_targets run source_path ?t targets w1 = (Inr (), w2)" and
    frame: "\<And>p. p \<noteq> file_in ?d ?t ''mstile-310x150.png'' \<Longrightarrow> p \<noteq> file_in ?d ?t ''favicon.ico'' \<Longrightarrow>
        p \<noteq> file_in ?d ?t ''favicon_temp.png'' \<Longrightarrow> fs w' p = fs w2 p" and
    d1: "cwd w1 = cwd w"
    by (rule run_effect) blast
  have "\<exists>img. fs w' (file_in ?d ?t n) = Some (File img) \<and>
              int (img_width img) = wd \<and> int (img_height img) = ht"
    if "(n, wd, ht) \<in> set targets" for n wd ht
    using for_targets_written[OF rs s2 target_paths_distinct that]
      frame[of "file_in ?d ?t n"] target_paths[OF that, of ?d ?t]
    by (simp add: d1)
  moreover from run_calls[OF ex r]
  have "take (length targets) (drop (length (calls w)) (calls w')) =
          map (resize_argv source_path ?t) targets"
    by auto
  ultimately show ?thesis by (auto simp: resize_argv_explicit)
qed

theorem entries_resized_witness:
  "(\<exists>img. fs (snd (generate_favicons (host True) ''logo.png'' ''out'' example_world))
             (file_in (cwd example_world) ''out'' ''favicon-16x16.png'') = Some (File img) \<and>
       int (img_width img) = 16 \<and> int (img_height img) = 16) \<and>
   take (length targets)
     (drop (length (calls example_world))
        (calls (snd (generate_favicons (host True) ''logo.png'' ''out'' example_world)))) =
   map (resize_argv ''logo.png'' ''out'') targets"
proof -
  have "(''favicon-16x16.png'', 16, 16) \<in> set targets"
    by (simp add: targets_def)
  with entries_resized[OF host_contract example_source(2) example_run[of True]]
  show ?thesis by (auto simp: resize_argv_explicit)
qed

text \<open>
  \<^bold>\<open>C3\<close>. When the source path does not exist, the function prints the error line
  and returns at once: the world it leaves differs from the one it found by that line
  only. The file system is unchanged (the target directory is not created, no file is
  written) and no external program is invoked.
\<close>

theorem missing_source_no_side_effects:
  assumes "\<not> os_path_exists source_path w"
  shows "generate_favicons run source_path target_dir w =
           (Inr (), w\<lparr>stdout := stdout w @
                        [''Error: Source file '' @ source_path @ '' not found.'']\<rparr>)"
  using assms by (simp add: generate_favicons_def print_def)

theorem missing_source_no_side_effects_witness:
  "\<not> os_path_exists ''logo.png'' empty_world \<and>
   generate_favicons (host True) ''logo.png'' ''out'' empty_world =
     (Inr (), empty_world\<lparr>stdout := stdout empty_world @
                [''Error: Source file '' @ ''logo.png'' @ '' not found.'']\<rparr>)"
proof -
  have h: "\<not> os_path_exists ''logo.png'' empty_world"
    by (simp add: os_path_exists_def stat_def empty_world_def example_paths)
  from h missing_source_no_side_effects[OF h] show ?thesis by simp
qed

text \<open>
  \<^bold>\<open>C4\<close>. Take any entry of the table, with the entries before it resized without
  error. If the resize of this entry exits with a non-zero status, the function raises
  the \<^verbatim>\<open>CalledProcessError\<close> of that invocation, and the world it leaves is the one of
  that moment: the invocations made are those of the earlier entries and the failed one,
  once. No later entry, no retry, no tile and no icon step.
\<close>

theorem resize_failure_propagates:
  assumes ex: "os_path_exists source_path w"
    and mk: "os_makedirs target_dir w = (Inr (), w1)"
    and split: "targets = earlier @ entry # later"
    and pre: "for_targets run source_path target_dir earlier w1 = (Inr (), w2)"
    and fail: "run (cwd w2) (resize_argv source_path target_dir entry) (fs w2) = Some (rc, f)"
    and rc: "rc \<noteq> 0"
  shows "generate_favicons run source_path target_dir w =
           (Inl (CalledProcessError rc (resize_argv source_path target_dir entry)),
            w2\<lparr>stdout := stdout w2 @ [progress_line entry], fs := f,
               calls := calls w2 @ [resize_argv source_path target_dir entry]\<rparr>) \<and>
         calls w2 @ [resize_argv source_path target_dir entry] =
           calls w @ map (resize_argv source_path target_dir) (earlier @ [entry])"
proof -
  let ?ss = "statements run source_path target_dir"
  let ?w' = "w2\<lparr>stdout := stdout w2 @ [progress_line entry], fs := f,
               calls := calls w2 @ [resize_argv source_path target_dir entry]\<rparr>"
  let ?e = "CalledProcessError rc (resize_argv source_path target_dir entry)"
  have loop: "for_targets run source_path target_dir targets w1 = (Inl ?e, ?w')"
    using for_targets_fails[of run w2 source_path target_dir entry rc f later] fail rc
    by (simp add: split for_targets_append pre)
  have "block (take 1 ?ss) w = (Inr (), w1)"
    using mk by (simp add: statements_def Let_def block.simps)
  moreover have "1 < length ?ss" "(?ss ! 1) w1 = (Inl ?e, ?w')"
    using loop by (simp_all add: statements_def Let_def)
  ultimately have "block ?ss w = (Inl ?e, ?w')" by (rule block_raises)
  with ex have "generate_favicons run source_path target_dir w = (Inl ?e, ?w')"
    by (simp add: generate_favicons_def)
  moreover from for_targets_calls[OF pre] os_makedirs_Inr(3)[OF mk]
  have "calls w2 @ [resize_argv source_path target_dir entry] =
           calls w @ map (resize_argv source_path target_dir) (earlier @ [entry])"
    by simp
  ultimately show ?thesis by simp
qed

theorem resize_failure_propagates_witness:
  "fst (generate_favicons
          (fail_when (\<lambda>argv. last argv = os_path_join ''out'' ''android-chrome-256x256.png'')
             (host True))
          ''logo.png'' ''out'' example_world) =
     Inl (CalledProcessError 1
            (resize_argv ''logo.png'' ''out'' (''android-chrome-256x256.png'', 256, 256))) \<and>
   calls (snd (generate_favicons
          (fail_when (\<lambda>argv. last argv = os_path_join ''out'' ''android-chrome-256x256.png'')
             (host True))
          ''logo.png'' ''out'' example_world)) =
     map (resize_argv ''logo.png'' ''out'') (take 3 targets)"
proof -
  let ?run = "fail_when (\<lambda>argv. last argv = os_path_join ''out'' ''android-chrome-256x256.png'')
             (host True)"
  let ?w1 = "example_world\<lparr>fs := (fs example_world)([''work'', ''out''] \<mapsto> Dir)\<rparr>"
  let ?entry = "(''android-chrome-256x256.png'', 256 :: int, 256 :: int)"
  let ?w2 = "snd (for_targets ?run ''logo.png'' ''out'' (take 2 targets) ?w1)"
  have split: "targets = take 2 targets @ ?entry # drop 3 targets"
    by (simp add: targets_def)
  have "is_file (fs ?w1) (resolve (cwd ?w1) ''logo.png'')"
    by (simp add: example_world_def is_file_def example_paths)
  moreover have "\<forall>(n, wd, ht) \<in> set (take 2 targets). 0 < wd \<and> 0 < ht"
    by (simp add: targets_def)
  ultimately have "\<exists>w'. for_targets (host True) ''logo.png'' ''out'' (take 2 targets) ?w1 = (Inr (), w') \<and>
      is_file (fs w') (resolve (cwd ?w1) ''logo.png'')"
    by (rule for_targets_reliable[OF host_resizes host_resize_reliable example_paths(5)])
  then have pre: "for_targets ?run ''logo.png'' ''out'' (take 2 targets) ?w1 = (Inr (), ?w2)"
    by (auto simp: example_loop_two)
  have fail: "?run (cwd ?w2) (resize_argv ''logo.png'' ''out'' ?entry) (fs ?w2) = Some (1, fs ?w2)"
    by (simp add: fail_when_def resize_argv_def)
  have three: "take 2 targets @ [?entry] = take 3 targets"
    by (simp add: targets_def)
  from resize_failure_propagates[OF example_source(2) example_makedirs split pre fail]
  show ?thesis by (simp add: three example_world_def)
qed




text \<open>
  \<^bold>\<open>C6\<close> (as amended). After every run that finds its source and returns without
  raising, whichever of the two ICO branches it took, the intermediate file
  \<^verbatim>\<open>favicon_temp.png\<close> does not exist. This holds for any tool.
\<close>

theorem temp_removed_after_normal_run:
  assumes "os_path_exists source_path w"
    and "generate_favicons run source_path target_dir w = (Inr (), w')"
  shows "fs w' (file_in (cwd w) target_dir ''favicon_temp.png'') = None \<and>
         \<not> os_path_exists (os_path_join target_dir ''favicon_temp.png'') w'"
proof -
  from assms obtain f6 :: filesystem where
    "fs w' = f6(file_in (cwd w) target_dir ''favicon_temp.png'' := None)" "cwd w' = cwd w"
    by (rule run_anatomy) blast
  then show ?thesis by (simp add: os_path_exists_def stat_def)
qed

theorem temp_removed_after_normal_run_witness:
  "fs (snd (generate_favicons (host False) ''logo.png'' ''out'' example_world))
     (file_in (cwd example_world) ''out'' ''favicon_temp.png'') = None \<and>
   \<not> os_path_exists (os_path_join ''out'' ''favicon_temp.png'')
       (snd (generate_favicons (host False) ''logo.png'' ''out'' example_world))"
  using temp_removed_after_normal_run[OF example_source(2) example_run[of False]] .

text \<open>
  \<^bold>\<open>C6\<close> as stated promises the removal even if the fallback copy itself fails. The
  script has no \<^verbatim>\<open>finally\<close>: on a host without ICO support whose \<^verbatim>\<open>cp\<close> exits with
  status 1 the error of \<^verbatim>\<open>cp\<close> leaves the function and the intermediate file stays.
\<close>

theorem temp_left_behind_counterexample:
  "fst (generate_favicons (fail_when (\<lambda>argv. hd argv = ''cp'') (host False)) ''logo.png'' ''out''
          example_world) =
     Inl (CalledProcessError 1 (cp_argv (os_path_join ''out'' ''favicon_temp.png'') ''out'')) \<and>
   is_file (fs (snd (generate_favicons (fail_when (\<lambda>argv. hd argv = ''cp'') (host False))
                       ''logo.png'' ''out'' example_world)))
     (file_in (cwd example_world) ''out'' ''favicon_temp.png'')"
proof -
  let ?run = "fail_when (\<lambda>argv. hd argv = ''cp'') (host False)"
  let ?tmp = "os_path_join ''out'' ''favicon_temp.png''"
  let ?w4 = "snd (block (take 6 (statements ?run ''logo.png'' ''out'')) example_world)"
  have rs: "sips_resizes ?run" "resize_reliable ?run"
    by (simp_all add: fail_when_cp host_resizes host_resize_reliable)
  note pre = example_prefix[OF rs]
  have conv: "?run (cwd ?w4) (ico_argv ?tmp ''out'') (fs ?w4) = Some (1, fs ?w4)"
    by (simp add: fail_when_def ico_argv_def host_def split: option.splits node.splits)
  have cp: "?run (cwd ?w4) (cp_argv ?tmp ''out'') (fs ?w4) = Some (1, fs ?w4)"
    by (simp add: fail_when_def cp_argv_def)
  from fallback_failure[OF example_source(2) pre(1) conv _ cp] pre(2)
  show ?thesis by (simp add: example_cwd)
qed

text \<open>
  \<^bold>\<open>C7\<close> (as amended). In a run that finds its source and returns, exactly one
  invocation has \<^verbatim>\<open>mstile-310x150.png\<close> as its destination, and it is the invocation the
  loop would make for an entry \<open>(''mstile-310x150.png'', 310, 150)\<close>, width 310 and
  height 150: the height comes first and the width second, the same order as for the
  entries of the table. (By the contract of \<^verbatim>\<open>sips -z H W\<close> the tile is then 310
  wide and 150 high, see \<open>run_effect\<close>.)
\<close>

theorem tile_invocation_order:
  assumes "os_path_exists source_path w"
    and "generate_favicons run source_path target_dir w = (Inr (), w')"
  shows "filter (\<lambda>argv. last argv = os_path_join target_dir ''mstile-310x150.png'')
           (drop (length (calls w)) (calls w')) =
         [resize_argv source_path target_dir (''mstile-310x150.png'', 310, 150)]"
  using tile_call_unique[OF assms] by (simp add: tile_argv_eq)

theorem tile_invocation_order_witness:
  "filter (\<lambda>argv. last argv = os_path_join ''out'' ''mstile-310x150.png'')
     (drop (length (calls example_world))
        (calls (snd (generate_favicons (host True) ''logo.png'' ''out'' example_world)))) =
   [resize_argv ''logo.png'' ''out'' (''mstile-310x150.png'', 310, 150)]"
  using tile_invocation_order[OF example_source(2) example_run[of True]] .

text \<open>
  \<^bold>\<open>C7\<close> as stated has the two dimensions in the other order than the loop, which
  would be \<^verbatim>\<open>sips -z 310 150\<close>. A run on the reference host makes no such invocation.
\<close>

theorem tile_swapped_counterexample:
  "fst (generate_favicons (host True) ''logo.png'' ''out'' example_world) = Inr () \<and>
   [''sips'', ''-z'', ''310'', ''150'', ''logo.png'', ''--out'',
    os_path_join ''out'' ''mstile-310x150.png'']
     \<notin> set (calls (snd (generate_favicons (host True) ''logo.png'' ''out'' example_world)))"
proof -
  let ?swapped = "[''sips'', ''-z'', ''310'', ''150'', ''logo.png'', ''--out'',
    os_path_join ''out'' ''mstile-310x150.png'']"
  let ?w' = "snd (generate_favicons (host True) ''logo.png'' ''out'' example_world)"
  have "?swapped \<notin> set (calls ?w')"
  proof
    assume "?swapped \<in> set (calls ?w')"
    then have "?swapped \<in> set (filter (\<lambda>argv. last argv = os_path_join ''out'' ''mstile-310x150.png'')
           (drop (length (calls example_world)) (calls ?w')))"
      by (simp add: example_world_def)
    with tile_call_unique[OF example_source(2) example_run, of True]
    show False by (simp add: tile_argv_def)
  qed
  with example_run[of True] show ?thesis by (simp add: prod_eq_iff)
qed

text \<open>
  \<^bold>\<open>C8\<close>. After every run that finds its source and returns without raising, on a
  tool that honours the contract, \<^verbatim>\<open>target_dir/favicon.ico\<close> exists and is a file,
  whether the conversion succeeded or the copy was taken.
\<close>

theorem favicon_ico_exists:
  assumes "tool_contract run" and "os_path_exists source_path w"
    and "generate_favicons run source_path target_dir w = (Inr (), w')"
  shows "is_file (fs w') (file_in (cwd w) target_dir ''favicon.ico'') \<and>
         os_path_exists (os_path_join target_dir ''favicon.ico'') w'"
proof -
  from assms have "is_file (fs w') (file_in (cwd w) target_dir ''favicon.ico'') \<and> cwd w' = cwd w"
    by (rule run_effect) blast
  then show ?thesis
    by (simp add: file_exists join_file_spelling literal_names)
qed

theorem favicon_ico_exists_witness:
  "is_file (fs (snd (generate_favicons (host True) ''logo.png'' ''out'' example_world)))
     (file_in (cwd example_world) ''out'' ''favicon.ico'') \<and>
   os_path_exists (os_path_join ''out'' ''favicon.ico'')
     (snd (generate_favicons (host True) ''logo.png'' ''out'' example_world))"
  using favicon_ico_exists[OF host_contract example_source(2) example_run[of True]] .

text \<open>
  \<^bold>\<open>C9\<close> (as amended). Let a first run find its source and return, on a tool that
  honours the contract, and let the source not be the file the script uses as its
  intermediate, under whatever spelling of its path. Then the source still exists, and
  \<^verbatim>\<open>os.makedirs\<close> on the target directory, which now exists, returns and changes
  nothing. If moreover the outcomes of the tool can be repeated, a second run with the
  same arguments returns as well: it makes the invocations for all the entries, the
  tile and the icon again, and all 32 outputs are files after the first run and after
  the second.
\<close>

theorem second_run_overwrites:
  assumes c: "tool_contract run"
    and ex: "os_path_exists source_path w"
    and r1: "generate_favicons run source_path target_dir w = (Inr (), w1)"
    and ne: "resolve (cwd w) source_path \<noteq> file_in (cwd w) target_dir ''favicon_temp.png''"
  shows "os_path_exists source_path w1 \<and>
         os_makedirs target_dir w1 = (Inr (), w1) \<and>
         (repeatable run \<longrightarrow>
          (\<exists>w2. generate_favicons run source_path target_dir w1 = (Inr (), w2) \<and>
            (\<exists>rest. calls w2 =
               calls w1 @ map (resize_argv source_path target_dir) targets @
               [tile_argv source_path target_dir,
                temp_argv source_path (os_path_join target_dir ''favicon_temp.png''),
                ico_argv (os_path_join target_dir ''favicon_temp.png'') target_dir] @ rest) \<and>
            (\<forall>p \<in> set (map (file_in (cwd w) target_dir) output_files).
               is_file (fs w1) p \<and> is_file (fs w2) p)))"
proof -
  let ?d = "cwd w"
  from c have rs: "sips_resizes run" by (simp add: tool_contract_def)
  from c ex r1 have "(is_file (fs w1) (resolve ?d source_path) \<or>
      resolve ?d source_path = file_in ?d target_dir ''favicon_temp.png'') \<and> cwd w1 = cwd w"
    by (rule run_effect) blast
  with ne have src: "is_file (fs w1) (resolve ?d source_path)" and d1: "cwd w1 = cwd w"
    by simp_all
  from ex r1 obtain v1 v2 where
    s1: "os_makedirs target_dir w = (Inr (), v1)" and
    s2: "for_targets run source_path target_dir targets v1 = (Inr (), v2)"
    by (rule run_anatomy) blast
  have "targets \<noteq> []" by (simp add: targets_def)
  from for_targets_source[OF rs s2 this] obtain c0 where
    "fs v1 (resolve ?d source_path) = Some (File c0)"
    by (auto simp: os_makedirs_Inr(6)[OF s1] dest: is_fileD)
  with os_makedirs_Inr(4)[OF s1] have "fs w (resolve ?d source_path) = Some (File c0)" by simp
  then have "is_file (fs w) (resolve ?d source_path)" by (simp add: is_file_def)
  with ex have "file_spelling source_path" by (rule exists_file_spelling)
  moreover from src have "is_file (fs w1) (resolve (cwd w1) source_path)" by (simp add: d1)
  ultimately have ex1: "os_path_exists source_path w1" by (rule file_exists)
  from target_dir_kept[OF c ex r1] have mk: "os_makedirs target_dir w1 = (Inr (), w1)"
    by (simp add: os_makedirs_existing d1)
  have "\<exists>w2. generate_favicons run source_path target_dir w1 = (Inr (), w2) \<and>
            (\<exists>rest. calls w2 =
               calls w1 @ map (resize_argv source_path target_dir) targets @
               [tile_argv source_path target_dir,
                temp_argv source_path (os_path_join target_dir ''favicon_temp.png''),
                ico_argv (os_path_join target_dir ''favicon_temp.png'') target_dir] @ rest) \<and>
            (\<forall>p \<in> set (map (file_in ?d target_dir) output_files).
               is_file (fs w1) p \<and> is_file (fs w2) p)"
    if rp: "repeatable run"
  proof -
    from run_again[OF c rp ex r1 ex1 src mk] obtain w2 where
      r2: "generate_favicons run source_path target_dir w1 = (Inr (), w2)"
      by blast
    from run_calls[OF ex1 r2] have "\<exists>rest. calls w2 =
               calls w1 @ map (resize_argv source_path target_dir) targets @
               [tile_argv source_path target_dir,
                temp_argv source_path (os_path_join target_dir ''favicon_temp.png''),
                ico_argv (os_path_join target_dir ''favicon_temp.png'') target_dir] @ rest"
      by auto
    moreover have "\<forall>p \<in> set (map (file_in ?d target_dir) output_files).
               is_file (fs w1) p \<and> is_file (fs w2) p"
      using outputs_are_files[OF c ex r1] outputs_are_files[OF c ex1 r2] by (simp add: d1)
    ultimately show ?thesis using r2 by simp
  qed
  with ex1 mk show ?thesis by simp
qed

theorem second_run_overwrites_witness:
  "os_path_exists ''logo.png''
     (snd (generate_favicons (host True) ''logo.png'' ''out'' example_world)) \<and>
   os_makedirs ''out'' (snd (generate_favicons (host True) ''logo.png'' ''out'' example_world)) =
     (Inr (), snd (generate_favicons (host True) ''logo.png'' ''out'' example_world)) \<and>
   (\<exists>w2. generate_favicons (host True) ''logo.png'' ''out''
           (snd (generate_favicons (host True) ''logo.png'' ''out'' example_world)) = (Inr (), w2))"
proof -
  have ne: "resolve (cwd example_world) ''logo.png'' \<noteq>
      file_in (cwd example_world) ''out'' ''favicon_temp.png''"
    by (simp add: example_cwd example_paths resolve_join literal_names)
  from second_run_overwrites[OF host_contract example_source(2) example_run[of True] ne]
    host_repeatable[of True]
  show ?thesis by auto
qed

text \<open>
  \<^bold>\<open>C9\<close> as stated holds for every pair of runs. When the source is
  \<^verbatim>\<open>target_dir/favicon_temp.png\<close> the first run resizes it in place and removes it
  at its end, and the second run finds no source: it prints the error line and
  invokes nothing.
\<close>

theorem second_run_counterexample:
  "fst (generate_favicons (host True) ''out/favicon_temp.png'' ''out'' aliased_world) = Inr () \<and>
   generate_favicons (host True) ''out/favicon_temp.png'' ''out''
     (snd (generate_favicons (host True) ''out/favicon_temp.png'' ''out'' aliased_world)) =
   (Inr (),
    (snd (generate_favicons (host True) ''out/favicon_temp.png'' ''out'' aliased_world))
      \<lparr>stdout :=
         stdout (snd (generate_favicons (host True) ''out/favicon_temp.png'' ''out'' aliased_world)) @
         [''Error: Source file out/favicon_temp.png not found.'']\<rparr>)"
proof -
  let ?s = "''out/favicon_temp.png''"
  let ?r1 = "generate_favicons (host True) ?s ''out'' aliased_world"
  have d: "cwd aliased_world = [''work'']" by (simp add: aliased_world_def)
  have tmp: "file_in [''work''] ''out'' ''favicon_temp.png'' = resolve [''work''] ?s"
    by (simp add: resolve_join literal_names example_paths)
  have src: "is_file (fs aliased_world) (resolve (cwd aliased_world) ?s)"
    "os_path_exists ?s aliased_world"
    by (simp_all add: aliased_world_def is_file_def os_path_exists_def stat_def example_paths)
  have mk: "os_makedirs ''out'' aliased_world = (Inr (), aliased_world)"
    by (rule os_makedirs_existing) (simp_all add: aliased_world_def example_paths)
  from reliable_run[OF host_contract host_resize_reliable host_convert_starts host_cp_reliable
      src(2,1) mk]
  have ok: "fst ?r1 = Inr ()" .
  then have r1: "?r1 = (Inr (), snd ?r1)" by (simp add: prod_eq_iff)
  from src(2) r1 obtain f6 :: filesystem where
    "fs (snd ?r1) = f6(file_in (cwd aliased_world) ''out'' ''favicon_temp.png'' := None)"
    "cwd (snd ?r1) = cwd aliased_world"
    by (rule run_anatomy) blast
  then have "\<not> os_path_exists ?s (snd ?r1)"
    by (simp add: d tmp os_path_exists_def stat_def)
  then have "generate_favicons (host True) ?s ''out'' (snd ?r1) =
      (Inr (), (snd ?r1)\<lparr>stdout := stdout (snd ?r1) @ [''Error: Source file '' @ ?s @ '' not found.'']\<rparr>)"
    by (simp add: generate_favicons_def print_def)
  with ok show ?thesis by simp
qed

text \<open>
  \<^bold>\<open>C10\<close>. When the source path does not exist the function raises nothing: it
  prints the error line and returns \<^verbatim>\<open>None\<close>. Every run that does not raise, a
  successful one included, returns this same value, so the result does not tell the
  two apart.
\<close>

theorem missing_source_returns_none:
  assumes "\<not> os_path_exists source_path w"
  shows "fst (generate_favicons run source_path target_dir w) = Inr () \<and>
         stdout (snd (generate_favicons run source_path target_dir w)) =
           stdout w @ [''Error: Source file '' @ source_path @ '' not found.''] \<and>
         (\<forall>run' source_path' target_dir' w'.
            (\<forall>e. fst (generate_favicons run' source_path' target_dir' w') \<noteq> Inl e) \<longrightarrow>
            fst (generate_favicons run' source_path' target_dir' w') =
              fst (generate_favicons run source_path target_dir w))"
proof -
  from assms have "fst (generate_favicons run source_path target_dir w) = Inr ()"
    and "stdout (snd (generate_favicons run source_path target_dir w)) =
           stdout w @ [''Error: Source file '' @ source_path @ '' not found.'']"
    by (simp_all add: generate_favicons_def print_def)
  moreover have "x = Inr ()" if "\<forall>e. x \<noteq> Inl e" for x :: "error + unit"
    using that by (cases x) auto
  ultimately show ?thesis by simp
qed

theorem missing_source_returns_none_witness:
  "\<not> os_path_exists ''logo.png'' empty_world \<and>
   fst (generate_favicons (host True) ''logo.png'' ''out'' empty_world) = Inr () \<and>
   fst (generate_favicons (host True) ''logo.png'' ''out'' example_world) =
     fst (generate_favicons (host True) ''logo.png'' ''out'' empty_world)"
proof -
  have h: "\<not> os_path_exists ''logo.png'' empty_world"
    by (simp add: os_path_exists_def stat_def empty_world_def example_paths)
  have ok: "\<forall>e. fst (generate_favicons (host True) ''logo.png'' ''out'' example_world) \<noteq> Inl e"
    using example_run[of True] by (simp add: prod_eq_iff)
  note t = missing_source_returns_none[OF h, of "host True" "''out''"]
  from t have "fst (generate_favicons (host True) ''logo.png'' ''out'' empty_world) = Inr ()"
    by (rule conjunct1)
  moreover from t ok have "fst (generate_favicons (host True) ''logo.png'' ''out'' example_world) =
     fst (generate_favicons (host True) ''logo.png'' ''out'' empty_world)"
    by metis
  ultimately show ?thesis using h by simp
qed

end
